theory Spec2Isabelle
  imports Complex_Main "HOL-Library.Log_Nat" "HOL-Library.AList"
    "HOL-Library.Char_ord" "HOL-Library.List_Lexorder"
begin

section \<open>Python numerics\<close>

datatype py_error = TypeError | ValueError | OverflowError | ZeroDivisionError | KeyError

function pow2_pos :: "int \<Rightarrow> rat" where
  "pow2_pos e = (if e \<le> 0 then 1 else
     let h = pow2_pos (e div 2) in if even e then h * h else 2 * h * h)"
  by pat_completeness auto
termination
  by (relation "measure nat") auto

declare pow2_pos.simps [simp del]

definition pow2 :: "int \<Rightarrow> rat" where
  "pow2 e = (if 0 \<le> e then pow2_pos e else 1 / pow2_pos (- e))"

definition ilog2 :: "rat \<Rightarrow> int" where
  "ilog2 x = (let (p, q) = quotient_of x; d = bitlen p - bitlen q
              in if pow2 d \<le> x then d else d - 1)"

definition round_half_even :: "rat \<Rightarrow> int" where
  "round_half_even q = (let f = \<lfloor>q\<rfloor>; d = q - of_int f
     in if d < 1 / 2 then f else if 1 / 2 < d then f + 1 else if even f then f else f + 1)"

definition fl_round :: "rat \<Rightarrow> rat" where
  "fl_round x = (if x = 0 then 0 else
     let e = max (ilog2 \<bar>x\<bar> - 52) (- 1074)
     in sgn x * of_int (round_half_even (\<bar>x\<bar> / pow2 e)) * pow2 e)"

definition py_truediv :: "int \<Rightarrow> int \<Rightarrow> py_error + rat" where
  "py_truediv a b = (if b = 0 then Inl ZeroDivisionError else
     let r = fl_round (of_int a / of_int b)
     in if pow2 1024 \<le> \<bar>r\<bar> then Inl OverflowError else Inr r)"

function isqrt :: "int \<Rightarrow> int" where
  "isqrt n = (if n < 4 then (if n \<le> 0 then 0 else 1)
     else let r = 2 * isqrt (n div 4) in if (r + 1) * (r + 1) \<le> n then r + 1 else r)"
  by pat_completeness auto
termination
  by (relation "measure nat") auto

declare isqrt.simps [simp del]

definition fl_sqrt :: "rat \<Rightarrow> rat" where
  "fl_sqrt y = (if y = 0 then 0 else
     let e = ilog2 y div 2 - 52;
         z = y / pow2 (2 * e);
         f = isqrt \<lfloor>z\<rfloor>;
         h = (of_int f + 1 / 2) * (of_int f + 1 / 2);
         m = (if z < h then f else if h < z then f + 1 else if even f then f else f + 1)
     in of_int m * pow2 e)"

definition py_sqrt :: "rat \<Rightarrow> py_error + rat" where
  "py_sqrt y = (if y < 0 then Inl ValueError else Inr (fl_sqrt y))"

definition py_int :: "rat \<Rightarrow> int" where
  "py_int r = (if 0 \<le> r then \<lfloor>r\<rfloor> else \<lceil>r\<rceil>)"

definition calculate_level :: "int \<Rightarrow> py_error + int" where
  "calculate_level xp = (if xp < 75 then Inr 0 else
     case py_truediv xp 75 of Inl e \<Rightarrow> Inl e
     | Inr q \<Rightarrow> (case py_sqrt q of Inl e \<Rightarrow> Inl e | Inr s \<Rightarrow> Inr (py_int s)))"

definition calculate_exp_for_level :: "int \<Rightarrow> int" where
  "calculate_exp_for_level level = 75 * level * level"

section \<open>Python strings and integers\<close>

text \<open>
  A Python string is modelled as a list of characters with code points below 256.
  \<open>str.strip()\<close> removes the characters for which \<open>str.isspace()\<close> holds; \<open>int()\<close> skips
  a smaller set: the C whitespace characters and the non-ASCII Unicode whitespace, but not
  the ASCII separators 0x1C to 0x1F.
\<close>

definition is_space :: "char \<Rightarrow> bool" where
  "is_space c = (c \<in> set [CHR 0x09, CHR 0x0A, CHR 0x0B, CHR 0x0C, CHR 0x0D,
                           CHR 0x1C, CHR 0x1D, CHR 0x1E, CHR 0x1F, CHR '' '',
                           CHR 0x85, CHR 0xA0])"

definition strip :: "string \<Rightarrow> string" where
  "strip s = rev (dropWhile is_space (rev (dropWhile is_space s)))"

definition int_space :: "char \<Rightarrow> bool" where
  "int_space c = (c \<in> set [CHR 0x09, CHR 0x0A, CHR 0x0B, CHR 0x0C, CHR 0x0D, CHR '' '',
                            CHR 0x85, CHR 0xA0])"

definition int_strip :: "string \<Rightarrow> string" where
  "int_strip s = rev (dropWhile int_space (rev (dropWhile int_space s)))"

definition digit_of :: "char \<Rightarrow> int option" where
  "digit_of c = (let n = (of_char c :: int) in if 48 \<le> n \<and> n \<le> 57 then Some (n - 48) else None)"

fun parse_digits :: "int \<Rightarrow> string \<Rightarrow> int option" where
  "parse_digits acc [] = Some acc"
| "parse_digits acc [c] =
     (case digit_of c of None \<Rightarrow> None | Some v \<Rightarrow> Some (10 * acc + v))"
| "parse_digits acc (c # d # ds) =
     (if c = CHR ''_'' then
        (case digit_of d of None \<Rightarrow> None | Some v \<Rightarrow> parse_digits (10 * acc + v) ds)
      else (case digit_of c of None \<Rightarrow> None | Some v \<Rightarrow> parse_digits (10 * acc + v) (d # ds)))"

text \<open>
  \<open>int(s)\<close> for a string: optional whitespace, an optional sign, decimal digits that may be
  separated by single underscores, optional whitespace. A string with more than 4300 digits
  is refused (the default digit limit of the interpreter).
\<close>

definition max_str_digits :: int where
  "max_str_digits = 4300"

definition py_int_of_str :: "string \<Rightarrow> py_error + int" where
  "py_int_of_str s =
     (let t = int_strip s;
          (sg, body) = (case t of [] \<Rightarrow> (1, [])
                        | c # cs \<Rightarrow> if c = CHR ''-'' then (- 1, cs)
                                    else if c = CHR ''+'' then (1, cs) else (1, t))
      in case body of [] \<Rightarrow> Inl ValueError
         | d # ds \<Rightarrow> (case digit_of d of None \<Rightarrow> Inl ValueError
              | Some v \<Rightarrow> (case parse_digits v ds of None \<Rightarrow> Inl ValueError
                  | Some n \<Rightarrow>
                      if max_str_digits < int (length (filter (\<lambda>c. c \<noteq> CHR ''_'') body))
                      then Inl ValueError else Inr (sg * n))))"

function str_nat :: "int \<Rightarrow> string" where
  "str_nat n = (if n < 10 then [char_of (48 + n)]
                else str_nat (n div 10) @ [char_of (48 + n mod 10)])"
  by pat_completeness auto
termination
  by (relation "measure nat") auto

declare str_nat.simps [simp del]

definition py_str :: "int \<Rightarrow> string" where
  "py_str n = (if n < 0 then CHR ''-'' # str_nat (- n) else str_nat n)"

section \<open>Data model\<close>

type_synonym guild_id = int
type_synonym user_id = int
type_synonym role_id = int
type_synonym channel_id = int

record member =
  m_id :: user_id
  m_guild :: guild_id
  m_bot :: bool
  m_roles :: "role_id list"
  m_administrator :: bool
  m_self_deaf :: bool

record user_row =
  exp_pts :: int
  level :: int
  total_messages :: int
  voice_time :: int
  welcome_count :: int

datatype py_key = KInt int | KStr string

record config =
  level_rewards :: "(string \<times> role_id) list option"
  remove_previous_rewards :: "bool option"
  role_multipliers :: "(py_key \<times> rat) list option"
  blacklisted_channels :: "channel_id list option"
  exp_per_message :: "int option"
  exp_per_voice_minute :: "int option"
  message_cooldown :: "int option"
  admin_roles :: "role_id list option"
  level_manager_roles :: "role_id list option"
  level_channel_id :: "channel_id option"
  reward_messages :: "(string \<times> string) list option"
  rewards_messages :: "(string \<times> string) list option"

record state =
  db_ready :: bool
  config :: config
  user_levels :: "(guild_id \<times> user_id) \<rightharpoonup> user_row"
  user_rewards :: "(guild_id \<times> user_id \<times> int \<times> role_id) list"
  message_cooldowns :: "user_id \<rightharpoonup> int"

datatype ExpGainType = MESSAGE | VOICE | WELCOME

definition cfg_get :: "'a option \<Rightarrow> 'a \<Rightarrow> 'a" where
  "cfg_get v d = (case v of None \<Rightarrow> d | Some x \<Rightarrow> x)"

definition cfg_item :: "'a option \<Rightarrow> py_error + 'a" where
  "cfg_item v = (case v of None \<Rightarrow> Inl KeyError | Some x \<Rightarrow> Inr x)"

definition new_row :: user_row where
  "new_row = \<lparr>exp_pts = 0, level = 0, total_messages = 0, voice_time = 0, welcome_count = 0\<rparr>"

definition get_user_data :: "state \<Rightarrow> guild_id \<Rightarrow> user_id \<Rightarrow> state \<times> user_row" where
  "get_user_data st g u =
     (if \<not> db_ready st then (st, new_row)
      else case user_levels st (g, u) of
             Some r \<Rightarrow> (st, r)
           | None \<Rightarrow> (st\<lparr>user_levels := (user_levels st)((g, u) \<mapsto> new_row)\<rparr>, new_row))"

definition get_update_sql :: "ExpGainType \<Rightarrow> int \<Rightarrow> int \<Rightarrow> user_row \<Rightarrow> user_row" where
  "get_update_sql gain_type new_exp new_level r =
     (if gain_type = VOICE then
        r\<lparr>exp_pts := new_exp, level := new_level, voice_time := voice_time r + 1\<rparr>
      else if gain_type = WELCOME then
        r\<lparr>exp_pts := new_exp, level := new_level, welcome_count := welcome_count r + 1\<rparr>
      else
        r\<lparr>exp_pts := new_exp, level := new_level, total_messages := total_messages r + 1\<rparr>)"

definition sql_update :: "state \<Rightarrow> guild_id \<times> user_id \<Rightarrow> (user_row \<Rightarrow> user_row) \<Rightarrow> state" where
  "sql_update st k f =
     (case user_levels st k of None \<Rightarrow> st
      | Some r \<Rightarrow> st\<lparr>user_levels := (user_levels st)(k \<mapsto> f r)\<rparr>)"

text \<open>
  An SQLite \<open>INTEGER\<close> is a signed 64-bit value: binding a Python integer outside that
  range raises \<open>OverflowError\<close> before the statement runs. Guild, user and role ids are
  Discord snowflakes, which are below \<open>2^63\<close>.
\<close>

definition sqlite_int :: "int \<Rightarrow> bool" where
  "sqlite_int v \<longleftrightarrow> - 9223372036854775808 \<le> v \<and> v \<le> 9223372036854775807"

definition bind_params :: "int list \<Rightarrow> bool" where
  "bind_params vs = list_all sqlite_int vs"

record exp_result =
  res_state :: state
  res_levels :: "int \<times> int \<times> int"
  res_task :: "int option"

definition update_user_exp :: "state \<Rightarrow> member \<Rightarrow> int \<Rightarrow> ExpGainType \<Rightarrow> exp_result" where
  "update_user_exp st user exp_gain gain_type =
     (if \<not> db_ready st then \<lparr>res_state = st, res_levels = (0, 0, 0), res_task = None\<rparr>
      else
        let (st1, user_data) = get_user_data st (m_guild user) (m_id user);
            old_level = level user_data;
            new_exp = max 0 (exp_pts user_data + exp_gain)
        in case calculate_level new_exp of
             Inl e \<Rightarrow> \<lparr>res_state = st1, res_levels = (0, 0, 0), res_task = None\<rparr>
           | Inr new_level \<Rightarrow>
               if \<not> bind_params [new_exp, new_level]
               then \<lparr>res_state = st1, res_levels = (0, 0, 0), res_task = None\<rparr>
               else
                 \<lparr>res_state = sql_update st1 (m_guild user, m_id user)
                                 (get_update_sql gain_type new_exp new_level),
                  res_levels = (old_level, new_level, exp_gain),
                  res_task = (if new_level \<noteq> old_level then Some new_level else None)\<rparr>)"

definition calculate_exp_from_activity :: "config \<Rightarrow> int \<Rightarrow> int \<Rightarrow> py_error + int" where
  "calculate_exp_from_activity cfg messages voice_minutes =
     (case cfg_item (exp_per_message cfg) of Inl e \<Rightarrow> Inl e
      | Inr pm \<Rightarrow> (case cfg_item (exp_per_voice_minute cfg) of Inl e \<Rightarrow> Inl e
          | Inr pv \<Rightarrow> Inr (messages * pm + voice_minutes * pv)))"

subsection \<open>Multipliers\<close>

definition to_float :: "int \<Rightarrow> py_error + rat" where
  "to_float n = (let r = fl_round (of_int n)
                 in if pow2 1024 \<le> \<bar>r\<bar> then Inl OverflowError else Inr r)"

definition fl_add :: "rat \<Rightarrow> rat \<Rightarrow> rat" where
  "fl_add a b = fl_round (a + b)"

definition fl_mul :: "rat \<Rightarrow> rat \<Rightarrow> rat" where
  "fl_mul a b = fl_round (a * b)"

definition get_multiplier :: "config \<Rightarrow> member \<Rightarrow> rat" where
  "get_multiplier cfg user =
     (let role_multipliers = cfg_get (role_multipliers cfg) [];
          bonus_multiplier = foldl (\<lambda>b role. fl_add b (cfg_get (map_of role_multipliers (KInt role)) 0))
                                   0 (m_roles user)
      in fl_add 1 bonus_multiplier)"

definition scaled_exp :: "int \<Rightarrow> rat \<Rightarrow> py_error + int" where
  "scaled_exp base_exp multiplier =
     (case to_float base_exp of Inl e \<Rightarrow> Inl e
      | Inr b \<Rightarrow> let p = fl_mul b multiplier
                 in if pow2 1024 \<le> \<bar>p\<bar> then Inl OverflowError else Inr (py_int p))"

definition is_admin :: "config \<Rightarrow> member \<Rightarrow> bool" where
  "is_admin cfg user =
     (m_administrator user \<or> list_ex (\<lambda>r. r \<in> set (cfg_get (admin_roles cfg) [])) (m_roles user))"

section \<open>Reward reconciliation\<close>

record discord_env =
  guild_roles :: "role_id list"
  add_fails :: "role_id list"
  remove_fails :: "role_id list"

definition parsed_rewards :: "(string \<times> role_id) list \<Rightarrow> (int \<times> role_id) list" where
  "parsed_rewards lr =
     List.map_filter (\<lambda>(s, rid). case py_int_of_str s of Inl e \<Rightarrow> None | Inr l \<Rightarrow> Some (l, rid)) lr"

definition applicable_roles :: "int \<Rightarrow> (string \<times> role_id) list \<Rightarrow> (int \<times> role_id) list" where
  "applicable_roles member_level lr = filter (\<lambda>(l, rid). l \<le> member_level) (parsed_rewards lr)"

definition non_applicable_roles :: "int \<Rightarrow> (string \<times> role_id) list \<Rightarrow> (int \<times> role_id) list" where
  "non_applicable_roles member_level lr =
     filter (\<lambda>(l, rid). \<not> l \<le> member_level) (parsed_rewards lr)"

fun topmost_loop :: "(int \<times> role_id) list \<Rightarrow> int \<Rightarrow> role_id option \<Rightarrow> role_id option" where
  "topmost_loop [] highest_level topmost_role_id = topmost_role_id"
| "topmost_loop ((role_level, rid) # rest) highest_level topmost_role_id =
     (if role_level > highest_level then topmost_loop rest role_level (Some rid)
      else topmost_loop rest highest_level topmost_role_id)"

definition topmost_role :: "(int \<times> role_id) list \<Rightarrow> role_id option" where
  "topmost_role applicable = topmost_loop applicable (- 1) None"

fun applicable_loop ::
  "discord_env \<Rightarrow> member \<Rightarrow> bool \<Rightarrow> role_id option \<Rightarrow> (int \<times> role_id) list \<Rightarrow>
   (int \<times> role_id) list \<times> (int \<times> role_id) list \<Rightarrow> (int \<times> role_id) list \<times> (int \<times> role_id) list" where
  "applicable_loop env mem rp topmost [] acc = acc"
| "applicable_loop env mem rp topmost ((role_level, rid) # rest) (to_add, to_remove) =
     (if rid \<notin> set (guild_roles env) then applicable_loop env mem rp topmost rest (to_add, to_remove)
      else if rid \<notin> set (m_roles mem) then
        (if \<not> rp \<or> Some rid = topmost
         then applicable_loop env mem rp topmost rest (to_add @ [(role_level, rid)], to_remove)
         else applicable_loop env mem rp topmost rest (to_add, to_remove))
      else if rp \<and> Some rid \<noteq> topmost
        then applicable_loop env mem rp topmost rest (to_add, to_remove @ [(role_level, rid)])
      else applicable_loop env mem rp topmost rest (to_add, to_remove))"

fun non_applicable_loop ::
  "discord_env \<Rightarrow> member \<Rightarrow> (int \<times> role_id) list \<Rightarrow> (int \<times> role_id) list \<Rightarrow> (int \<times> role_id) list" where
  "non_applicable_loop env mem [] to_remove = to_remove"
| "non_applicable_loop env mem ((role_level, rid) # rest) to_remove =
     (if rid \<in> set (guild_roles env) \<and> rid \<in> set (m_roles mem)
      then non_applicable_loop env mem rest (to_remove @ [(role_level, rid)])
      else non_applicable_loop env mem rest to_remove)"

definition safe_add_role :: "discord_env \<Rightarrow> role_id list \<Rightarrow> role_id \<Rightarrow> bool \<times> role_id list" where
  "safe_add_role env roles rid =
     (if rid \<in> set (add_fails env) then (False, roles)
      else (True, if rid \<in> set roles then roles else roles @ [rid]))"

definition safe_remove_role :: "discord_env \<Rightarrow> role_id list \<Rightarrow> role_id \<Rightarrow> bool \<times> role_id list" where
  "safe_remove_role env roles rid =
     (if rid \<in> set (remove_fails env) then (False, roles)
      else (True, filter (\<lambda>r. r \<noteq> rid) roles))"

type_synonym reward_row = "guild_id \<times> user_id \<times> int \<times> role_id"

fun grant_loop ::
  "discord_env \<Rightarrow> member \<Rightarrow> (int \<times> role_id) list \<Rightarrow> role_id list \<times> reward_row list \<Rightarrow>
   role_id list \<times> reward_row list" where
  "grant_loop env mem [] acc = acc"
| "grant_loop env mem ((lvl, rid) # rest) (roles, rewards) =
     (let (success, roles') = safe_add_role env roles rid
      in if success then grant_loop env mem rest (roles', rewards @ [(m_guild mem, m_id mem, lvl, rid)])
         else grant_loop env mem rest (roles', rewards))"

fun revoke_loop ::
  "discord_env \<Rightarrow> member \<Rightarrow> (int \<times> role_id) list \<Rightarrow> role_id list \<times> reward_row list \<Rightarrow>
   role_id list \<times> reward_row list" where
  "revoke_loop env mem [] acc = acc"
| "revoke_loop env mem ((lvl, rid) # rest) (roles, rewards) =
     (let (success, roles') = safe_remove_role env roles rid
      in if success
         then revoke_loop env mem rest
                (roles', filter (\<lambda>row. row \<noteq> (m_guild mem, m_id mem, lvl, rid)) rewards)
         else revoke_loop env mem rest (roles', rewards))"

definition update_rewards :: "state \<Rightarrow> discord_env \<Rightarrow> member \<Rightarrow> int \<Rightarrow> state \<times> role_id list" where
  "update_rewards st env mem member_level =
     (let lr = cfg_get (level_rewards (config st)) [];
          remove_previous = cfg_get (remove_previous_rewards (config st)) True;
          applicable = applicable_roles member_level lr;
          non_applicable = non_applicable_roles member_level lr;
          topmost_role_id = topmost_role applicable;
          (roles_to_add, to_remove0) =
             applicable_loop env mem remove_previous topmost_role_id applicable ([], []);
          roles_to_remove = non_applicable_loop env mem non_applicable to_remove0
      in if db_ready st then
           let (roles1, rewards1) = grant_loop env mem roles_to_add (m_roles mem, user_rewards st);
               (roles2, rewards2) = revoke_loop env mem roles_to_remove (roles1, rewards1)
           in (st\<lparr>user_rewards := rewards2\<rparr>, roles2)
         else (st, m_roles mem))"

section \<open>Event handlers\<close>

datatype fail_msg =
    NoPermission | DbUnavailable | DbUnavailableLong
  | AmountMustBePositive | NotEnoughExp | AmountNegative | UpdateError
  | ValuesNegative | NeedOneParam | DataFetchError
  | AlreadyBlacklisted | NotBlacklisted
  | NegExpPerMessage | NegExpPerVoice | NegCooldown
  | NegMultiplier | NoMultiplier
  | LevelBelowOne | NoRewardForLevel
  | AlreadyManager | NoManagers | NotManager

datatype reply = Failure fail_msg | Success | Client | Embed

record outcome =
  out_state :: state
  out_reply :: "reply option"
  out_raised :: "py_error option"
  out_tasks :: "(member \<times> int) list"

definition silent :: "state \<Rightarrow> outcome" where
  "silent st = \<lparr>out_state = st, out_reply = None, out_raised = None, out_tasks = []\<rparr>"

definition respond :: "state \<Rightarrow> reply \<Rightarrow> outcome" where
  "respond st r = \<lparr>out_state = st, out_reply = Some r, out_raised = None, out_tasks = []\<rparr>"

definition raises :: "state \<Rightarrow> py_error \<Rightarrow> outcome" where
  "raises st e = \<lparr>out_state = st, out_reply = None, out_raised = Some e, out_tasks = []\<rparr>"

definition task_list :: "member \<Rightarrow> int option \<Rightarrow> (member \<times> int) list" where
  "task_list user t = (case t of None \<Rightarrow> [] | Some l \<Rightarrow> [(user, l)])"

record message =
  msg_author :: member
  msg_in_guild :: bool
  msg_channel :: channel_id

text \<open>
  Points in time are counted in microseconds. \<open>timedelta.total_seconds()\<close> divides the
  microseconds of the difference by \<open>10^6\<close> and returns the nearest double; the comparison of
  that double with the configured integer is exact.
\<close>

definition total_seconds :: "int \<Rightarrow> py_error + rat" where
  "total_seconds micros = py_truediv micros 1000000"

definition in_cooldown :: "state \<Rightarrow> user_id \<Rightarrow> int \<Rightarrow> py_error + bool" where
  "in_cooldown st uid current_time =
     (case message_cooldowns st uid of None \<Rightarrow> Inr False
      | Some last_time \<Rightarrow>
          (case total_seconds (current_time - last_time) of
             Inl e \<Rightarrow> Inl e
           | Inr time_diff \<Rightarrow>
               Inr (time_diff < of_int (cfg_get (message_cooldown (config st)) 0))))"

definition on_message :: "state \<Rightarrow> message \<Rightarrow> int \<Rightarrow> outcome" where
  "on_message st msg current_time =
     (if m_bot (msg_author msg) \<or> \<not> msg_in_guild msg then silent st
      else if \<not> db_ready st then silent st
      else if msg_channel msg \<in> set (cfg_get (blacklisted_channels (config st)) []) then silent st
      else case in_cooldown st (m_id (msg_author msg)) current_time of
             Inl e \<Rightarrow> raises st e
           | Inr True \<Rightarrow> silent st
           | Inr False \<Rightarrow>
               (case scaled_exp (cfg_get (exp_per_message (config st)) 0)
                                (get_multiplier (config st) (msg_author msg)) of
                  Inl e \<Rightarrow> raises st e
                | Inr final_exp \<Rightarrow>
                    let r = update_user_exp st (msg_author msg) final_exp MESSAGE;
                        st1 = res_state r
                    in \<lparr>out_state = st1\<lparr>message_cooldowns :=
                           (message_cooldowns st1)(m_id (msg_author msg) \<mapsto> current_time)\<rparr>,
                        out_reply = None, out_raised = None,
                        out_tasks = task_list (msg_author msg) (res_task r)\<rparr>))"

subsection \<open>Voice tick\<close>

record voice_channel =
  vc_id :: channel_id
  vc_members :: "member list"

record guild =
  g_id :: guild_id
  g_voice_channels :: "voice_channel list"

datatype py_val = VBool bool | VGain ExpGainType

definition gain_of :: "py_val \<Rightarrow> ExpGainType" where
  "gain_of v = (case v of VGain g \<Rightarrow> g | VBool b \<Rightarrow> MESSAGE)"

definition call_update_user_exp ::
  "state \<Rightarrow> member \<Rightarrow> int \<Rightarrow> (string \<times> py_val) list \<Rightarrow> py_error + exp_result" where
  "call_update_user_exp st user exp_gain kwargs =
     (if list_ex (\<lambda>(k, v). k \<noteq> ''gain_type'') kwargs then Inl TypeError
      else Inr (update_user_exp st user exp_gain
                  (case map_of kwargs ''gain_type'' of None \<Rightarrow> MESSAGE | Some v \<Rightarrow> gain_of v)))"

type_synonym tick_acc = "state \<times> (member \<times> int) list"

fun voice_members :: "int \<Rightarrow> member list \<Rightarrow> tick_acc \<Rightarrow> (py_error \<times> tick_acc) + tick_acc" where
  "voice_members base_exp [] acc = Inr acc"
| "voice_members base_exp (mem # rest) (st, tasks) =
     (case scaled_exp base_exp (get_multiplier (config st) mem) of
        Inl e \<Rightarrow> Inl (e, (st, tasks))
      | Inr final_exp \<Rightarrow>
          (case call_update_user_exp st mem final_exp [(''from_voice'', VBool True)] of
             Inl e \<Rightarrow> Inl (e, (st, tasks))
           | Inr r \<Rightarrow> voice_members base_exp rest
                        (res_state r, tasks @ task_list mem (res_task r))))"

definition active_members :: "voice_channel \<Rightarrow> member list" where
  "active_members vc = filter (\<lambda>m. \<not> m_bot m \<and> \<not> m_self_deaf m) (vc_members vc)"

fun voice_channels ::
  "channel_id list \<Rightarrow> int \<Rightarrow> voice_channel list \<Rightarrow> tick_acc \<Rightarrow> (py_error \<times> tick_acc) + tick_acc" where
  "voice_channels blacklisted base_exp [] acc = Inr acc"
| "voice_channels blacklisted base_exp (vc # rest) acc =
     (if vc_id vc \<in> set blacklisted then voice_channels blacklisted base_exp rest acc
      else if length (active_members vc) < 2 then voice_channels blacklisted base_exp rest acc
      else case voice_members base_exp (active_members vc) acc of
             Inl e \<Rightarrow> Inl e
           | Inr acc' \<Rightarrow> voice_channels blacklisted base_exp rest acc')"

fun voice_guilds :: "channel_id list \<Rightarrow> guild list \<Rightarrow> tick_acc \<Rightarrow> (py_error \<times> tick_acc) + tick_acc" where
  "voice_guilds blacklisted [] acc = Inr acc"
| "voice_guilds blacklisted (g # rest) (st, tasks) =
     (case voice_channels blacklisted (cfg_get (exp_per_voice_minute (config st)) 0)
             (g_voice_channels g) (st, tasks) of
        Inl e \<Rightarrow> Inl e
      | Inr acc' \<Rightarrow> voice_guilds blacklisted rest acc')"

definition voice_exp_task :: "state \<Rightarrow> guild list \<Rightarrow> outcome" where
  "voice_exp_task st guilds =
     (if \<not> db_ready st then silent st
      else case voice_guilds (cfg_get (blacklisted_channels (config st)) []) guilds (st, []) of
             Inl (e, (st', tasks)) \<Rightarrow>
               \<lparr>out_state = st', out_reply = None, out_raised = Some e, out_tasks = tasks\<rparr>
           | Inr (st', tasks) \<Rightarrow>
               \<lparr>out_state = st', out_reply = None, out_raised = None, out_tasks = tasks\<rparr>)"

section \<open>Commands\<close>

record interaction =
  i_user :: member
  i_guild :: guild_id

fun next_reward :: "int \<Rightarrow> string list \<Rightarrow> py_error + int option" where
  "next_reward current_level [] = Inr None"
| "next_reward current_level (level_str # rest) =
     (case py_int_of_str level_str of
        Inl e \<Rightarrow> Inl e
      | Inr l \<Rightarrow> if l > current_level then Inr (Some l) else next_reward current_level rest)"

definition display_level_info :: "state \<Rightarrow> interaction \<Rightarrow> member option \<Rightarrow> outcome" where
  "display_level_info st i utilisateur =
     (if \<not> db_ready st then respond st (Failure DbUnavailableLong)
      else
        let target = (case utilisateur of None \<Rightarrow> i_user i | Some u \<Rightarrow> u);
            (st1, user_data) = get_user_data st (i_guild i) (m_id target)
        in case next_reward (level user_data)
                  (sort (map fst (cfg_get (level_rewards (config st)) []))) of
             Inl e \<Rightarrow> raises st1 e
           | Inr nxt \<Rightarrow> respond st1 Embed)"

definition display_leaderboard :: "state \<Rightarrow> interaction \<Rightarrow> int \<Rightarrow> outcome" where
  "display_leaderboard st i page =
     (if \<not> db_ready st then respond st (Failure DbUnavailableLong)
      else respond st Embed)"

definition add_exp :: "state \<Rightarrow> interaction \<Rightarrow> member \<Rightarrow> int \<Rightarrow> outcome" where
  "add_exp st i utilisateur montant =
     (if \<not> is_admin (config st) (i_user i) then respond st (Failure NoPermission)
      else if \<not> db_ready st then respond st (Failure DbUnavailable)
      else if montant \<le> 0 then respond st (Failure AmountMustBePositive)
      else let r = update_user_exp st utilisateur montant MESSAGE
           in \<lparr>out_state = res_state r, out_reply = Some Embed, out_raised = None,
               out_tasks = task_list utilisateur (res_task r)\<rparr>)"

definition remove_exp :: "state \<Rightarrow> interaction \<Rightarrow> member \<Rightarrow> int \<Rightarrow> outcome" where
  "remove_exp st i utilisateur montant =
     (if \<not> is_admin (config st) (i_user i) then respond st (Failure NoPermission)
      else if \<not> db_ready st then respond st (Failure DbUnavailable)
      else if montant \<le> 0 then respond st (Failure AmountMustBePositive)
      else
        let (st1, user_data) = get_user_data st (i_guild i) (m_id utilisateur)
        in if exp_pts user_data < montant then respond st1 (Failure NotEnoughExp)
           else
             let r = update_user_exp st1 utilisateur (- montant) MESSAGE;
                 (old_level, new_level, g) = res_levels r
             in \<lparr>out_state = res_state r, out_reply = Some Embed, out_raised = None,
                 out_tasks = task_list utilisateur (res_task r)
                   @ (if new_level < old_level then [(utilisateur, new_level)] else [])\<rparr>)"

definition set_exp :: "state \<Rightarrow> interaction \<Rightarrow> member \<Rightarrow> int \<Rightarrow> outcome" where
  "set_exp st i utilisateur montant =
     (if \<not> is_admin (config st) (i_user i) then respond st (Failure NoPermission)
      else if \<not> db_ready st then respond st (Failure DbUnavailable)
      else if montant < 0 then respond st (Failure AmountNegative)
      else
        let (st1, user_data) = get_user_data st (i_guild i) (m_id utilisateur)
        in case calculate_level montant of
             Inl e \<Rightarrow> respond st1 (Failure UpdateError)
           | Inr new_level \<Rightarrow>
               if \<not> bind_params [montant, new_level] then respond st1 (Failure UpdateError)
               else
                 \<lparr>out_state = sql_update st1 (i_guild i, m_id utilisateur)
                                 (\<lambda>r. r\<lparr>exp_pts := montant, level := new_level\<rparr>),
                  out_reply = Some Embed, out_raised = None,
                  out_tasks = [(utilisateur, new_level)]\<rparr>)"

definition py_lt_zero :: "int option \<Rightarrow> py_error + bool" where
  "py_lt_zero v = (case v of None \<Rightarrow> Inl TypeError | Some n \<Rightarrow> Inr (n < 0))"

definition set_activity_body ::
  "state \<Rightarrow> interaction \<Rightarrow> member \<Rightarrow> int option \<Rightarrow> int option \<Rightarrow> outcome" where
  "set_activity_body st i utilisateur messages temps_vocal =
     (let (st1, user_data) = get_user_data st (i_guild i) (m_id utilisateur);
          messages' = (case messages of None \<Rightarrow> total_messages user_data | Some m \<Rightarrow> m);
          temps_vocal' = (case temps_vocal of None \<Rightarrow> voice_time user_data | Some t \<Rightarrow> t)
      in case calculate_exp_from_activity (config st1) messages' temps_vocal' of
           Inl e \<Rightarrow> respond st1 (Failure UpdateError)
         | Inr total_exp \<Rightarrow>
             (case calculate_level total_exp of
                Inl e \<Rightarrow> respond st1 (Failure UpdateError)
              | Inr new_level \<Rightarrow>
                  if \<not> bind_params [total_exp, new_level, messages', temps_vocal']
                  then respond st1 (Failure UpdateError)
                  else
                  let st2 = sql_update st1 (i_guild i, m_id utilisateur)
                              (\<lambda>r. r\<lparr>exp_pts := total_exp, level := new_level,
                                      total_messages := messages', voice_time := temps_vocal'\<rparr>);
                      st3 = st2\<lparr>user_rewards :=
                                  filter (\<lambda>(g, u, l, rid). \<not> (g = i_guild i \<and> u = m_id utilisateur))
                                         (user_rewards st2)\<rparr>
                  in respond st3 Embed))"

definition set_activity ::
  "state \<Rightarrow> interaction \<Rightarrow> member \<Rightarrow> int option \<Rightarrow> int option \<Rightarrow> outcome" where
  "set_activity st i utilisateur messages temps_vocal =
     (if \<not> is_admin (config st) (i_user i) then respond st (Failure NoPermission)
      else if \<not> db_ready st then respond st (Failure DbUnavailable)
      else case py_lt_zero messages of
             Inl e \<Rightarrow> raises st e
           | Inr True \<Rightarrow> respond st (Failure ValuesNegative)
           | Inr False \<Rightarrow>
               (case py_lt_zero temps_vocal of
                  Inl e \<Rightarrow> raises st e
                | Inr True \<Rightarrow> respond st (Failure ValuesNegative)
                | Inr False \<Rightarrow>
                    if messages = None \<and> temps_vocal = None then respond st (Failure NeedOneParam)
                    else set_activity_body st i utilisateur messages temps_vocal))"

definition toggle_remove_previous :: "state \<Rightarrow> interaction \<Rightarrow> outcome" where
  "toggle_remove_previous st i =
     (if \<not> is_admin (config st) (i_user i) then respond st (Failure NoPermission)
      else respond
             (st\<lparr>config := (config st)\<lparr>remove_previous_rewards :=
                  Some (\<not> cfg_get (remove_previous_rewards (config st)) True)\<rparr>\<rparr>)
             Success)"

definition level_debug :: "state \<Rightarrow> interaction \<Rightarrow> member option \<Rightarrow> outcome" where
  "level_debug st i utilisateur =
     (if \<not> is_admin (config st) (i_user i) then respond st (Failure NoPermission)
      else case utilisateur of
             None \<Rightarrow> respond st Embed
           | Some u \<Rightarrow> respond (fst (get_user_data st (i_guild i) (m_id u))) Embed)"

subsection \<open>Configuration commands\<close>

definition guarded :: "state \<Rightarrow> interaction \<Rightarrow> outcome \<Rightarrow> outcome" where
  "guarded st i body =
     (if \<not> is_admin (config st) (i_user i) then respond st (Failure NoPermission)
      else if \<not> db_ready st then respond st (Failure DbUnavailable)
      else body)"

definition set_cfg :: "state \<Rightarrow> (config \<Rightarrow> config) \<Rightarrow> state" where
  "set_cfg st f = st\<lparr>config := f (config st)\<rparr>"

definition blacklist_list_channels :: "state \<Rightarrow> interaction \<Rightarrow> outcome" where
  "blacklist_list_channels st i = guarded st i (respond st Client)"

definition blacklist_add_channel :: "state \<Rightarrow> interaction \<Rightarrow> channel_id \<Rightarrow> outcome" where
  "blacklist_add_channel st i channel = guarded st i
     (let bl = cfg_get (blacklisted_channels (config st)) []
      in if channel \<in> set bl then respond st (Failure AlreadyBlacklisted)
         else respond (set_cfg st (\<lambda>c. c\<lparr>blacklisted_channels := Some (bl @ [channel])\<rparr>)) Success)"

definition blacklist_remove_channel :: "state \<Rightarrow> interaction \<Rightarrow> channel_id \<Rightarrow> outcome" where
  "blacklist_remove_channel st i channel = guarded st i
     (let bl = cfg_get (blacklisted_channels (config st)) []
      in if channel \<notin> set bl then respond st (Failure NotBlacklisted)
         else respond (set_cfg st (\<lambda>c. c\<lparr>blacklisted_channels := Some (remove1 channel bl)\<rparr>)) Success)"

definition show_xp_settings :: "state \<Rightarrow> interaction \<Rightarrow> outcome" where
  "show_xp_settings st i = guarded st i (respond st Embed)"

definition xp_set_cooldown :: "state \<Rightarrow> int option \<Rightarrow> outcome" where
  "xp_set_cooldown st cooldown =
     (case cooldown of None \<Rightarrow> respond st Success
      | Some c \<Rightarrow> if c < 0 then respond st (Failure NegCooldown)
                  else respond (set_cfg st (\<lambda>cf. cf\<lparr>message_cooldown := Some c\<rparr>)) Success)"

definition xp_set_voice :: "state \<Rightarrow> int option \<Rightarrow> int option \<Rightarrow> outcome" where
  "xp_set_voice st per_voice cooldown =
     (case per_voice of None \<Rightarrow> xp_set_cooldown st cooldown
      | Some v \<Rightarrow> if v < 0 then respond st (Failure NegExpPerVoice)
                  else xp_set_cooldown (set_cfg st (\<lambda>cf. cf\<lparr>exp_per_voice_minute := Some v\<rparr>)) cooldown)"

definition set_xp_settings ::
  "state \<Rightarrow> interaction \<Rightarrow> int option \<Rightarrow> int option \<Rightarrow> int option \<Rightarrow> outcome" where
  "set_xp_settings st i per_message per_voice cooldown = guarded st i
     (case per_message of None \<Rightarrow> xp_set_voice st per_voice cooldown
      | Some v \<Rightarrow> if v < 0 then respond st (Failure NegExpPerMessage)
                  else xp_set_voice (set_cfg st (\<lambda>cf. cf\<lparr>exp_per_message := Some v\<rparr>))
                         per_voice cooldown)"

definition role_multiplier_set :: "state \<Rightarrow> interaction \<Rightarrow> role_id \<Rightarrow> rat \<Rightarrow> outcome" where
  "role_multiplier_set st i role multiplier = guarded st i
     (if multiplier < 0 then respond st (Failure NegMultiplier)
      else
        let rm = cfg_get (role_multipliers (config st)) [];
            role_key = KStr (py_str role)
        in if multiplier = 0 then
             (if role_key \<in> fst ` set rm
              then respond (set_cfg st (\<lambda>c. c\<lparr>role_multipliers := Some (AList.delete role_key rm)\<rparr>))
                     Success
              else respond st (Failure NoMultiplier))
           else respond
                  (set_cfg st (\<lambda>c. c\<lparr>role_multipliers := Some (AList.update role_key multiplier rm)\<rparr>))
                  Success)"

definition key_as_int :: "py_key \<Rightarrow> py_error + int" where
  "key_as_int k = (case k of KInt n \<Rightarrow> Inr n | KStr s \<Rightarrow> py_int_of_str s)"

definition role_multiplier_list :: "state \<Rightarrow> interaction \<Rightarrow> outcome" where
  "role_multiplier_list st i = guarded st i
     (case role_multipliers (config st) of
        None \<Rightarrow> respond st Client
      | Some rm \<Rightarrow>
          if rm = [] then respond st Client
          else if list_all (\<lambda>(k, v). \<not> isl (key_as_int k)) rm then respond st Embed
          else raises st ValueError)"

definition set_level_reward :: "state \<Rightarrow> interaction \<Rightarrow> int \<Rightarrow> role_id \<Rightarrow> outcome" where
  "set_level_reward st i niveau role = guarded st i
     (if niveau < 1 then respond st (Failure LevelBelowOne)
      else respond
             (set_cfg st (\<lambda>c. c\<lparr>level_rewards :=
                Some (AList.update (py_str niveau) role (cfg_get (level_rewards (config st)) []))\<rparr>))
             Success)"

definition remove_level_reward :: "state \<Rightarrow> interaction \<Rightarrow> int \<Rightarrow> outcome" where
  "remove_level_reward st i niveau = guarded st i
     (let lr = cfg_get (level_rewards (config st)) []
      in if py_str niveau \<notin> fst ` set lr then respond st (Failure NoRewardForLevel)
         else respond (set_cfg st (\<lambda>c. c\<lparr>level_rewards := Some (AList.delete (py_str niveau) lr)\<rparr>))
                Success)"

definition list_level_rewards :: "state \<Rightarrow> interaction \<Rightarrow> outcome" where
  "list_level_rewards st i = guarded st i
     (if cfg_get (level_rewards (config st)) [] = [] then respond st Client else respond st Embed)"

definition del_rewards_message :: "state \<Rightarrow> string \<Rightarrow> outcome" where
  "del_rewards_message st niveau_str =
     (let rm = cfg_get (rewards_messages (config st)) []
      in if niveau_str \<in> fst ` set rm
         then respond (set_cfg st (\<lambda>c. c\<lparr>rewards_messages := Some (AList.delete niveau_str rm)\<rparr>))
                Success
         else raises st KeyError)"

definition set_rewards_message :: "state \<Rightarrow> interaction \<Rightarrow> int \<Rightarrow> string option \<Rightarrow> outcome" where
  "set_rewards_message st i niveau msg = guarded st i
     (if niveau < 1 then respond st (Failure LevelBelowOne)
      else case msg of
             None \<Rightarrow> del_rewards_message st (py_str niveau)
           | Some m \<Rightarrow>
               if strip m = [] then del_rewards_message st (py_str niveau)
               else respond
                      (set_cfg st (\<lambda>c. c\<lparr>rewards_messages :=
                         Some (AList.update (py_str niveau) m
                                 (cfg_get (rewards_messages (config st)) []))\<rparr>))
                      Success)"

definition list_rewards_messages :: "state \<Rightarrow> interaction \<Rightarrow> outcome" where
  "list_rewards_messages st i = guarded st i
     (if cfg_get (rewards_messages (config st)) [] = [] then respond st Client else respond st Embed)"

definition set_rewards_channel :: "state \<Rightarrow> interaction \<Rightarrow> channel_id option \<Rightarrow> outcome" where
  "set_rewards_channel st i channel = guarded st i
     (case channel of
        None \<Rightarrow> respond st Client
      | Some ch \<Rightarrow> respond (set_cfg st (\<lambda>c. c\<lparr>level_channel_id := Some ch\<rparr>)) Success)"

definition add_admin_role :: "state \<Rightarrow> interaction \<Rightarrow> role_id \<Rightarrow> outcome" where
  "add_admin_role st i role = guarded st i
     (let mr = cfg_get (level_manager_roles (config st)) []
      in if role \<in> set mr then respond st (Failure AlreadyManager)
         else respond (set_cfg st (\<lambda>c. c\<lparr>level_manager_roles := Some (mr @ [role])\<rparr>)) Success)"

definition remove_admin_role :: "state \<Rightarrow> interaction \<Rightarrow> role_id \<Rightarrow> outcome" where
  "remove_admin_role st i role = guarded st i
     (let mr = cfg_get (level_manager_roles (config st)) []
      in if mr = [] then respond st (Failure NoManagers)
         else if role \<notin> set mr then respond st (Failure NotManager)
         else respond (set_cfg st (\<lambda>c. c\<lparr>level_manager_roles := Some (remove1 role mr)\<rparr>)) Success)"

definition list_admin_roles :: "state \<Rightarrow> interaction \<Rightarrow> outcome" where
  "list_admin_roles st i = guarded st i
     (if cfg_get (level_manager_roles (config st)) [] = [] then respond st Client else respond st Embed)"

subsection \<open>Dispatch\<close>

datatype command =
    LevelInfo "member option" | LevelAlias "member option"
  | LeaderboardFr int | Leaderboard int | TopLevel int
  | AddExp member int | RemoveExp member int | SetExp member int
  | SetActivity member "int option" "int option"
  | ToggleRemovePrevious | LevelDebug "member option"
  | BlacklistList | BlacklistAdd channel_id | BlacklistRemove channel_id
  | XpSettingsShow | XpSettingsSet "int option" "int option" "int option"
  | RoleMultiplierSet role_id rat | RoleMultiplierList
  | LevelRewardSet int role_id | LevelRewardRemove int | LevelRewardList
  | RewardsMessageSet int "string option" | RewardsMessageList
  | RewardsChannel "channel_id option"
  | AdminRoleAdd role_id | AdminRoleRemove role_id | AdminRoleList

fun run_command :: "state \<Rightarrow> interaction \<Rightarrow> command \<Rightarrow> outcome" where
  "run_command st i (LevelInfo u) = display_level_info st i u"
| "run_command st i (LevelAlias u) = display_level_info st i u"
| "run_command st i (LeaderboardFr p) = display_leaderboard st i p"
| "run_command st i (Leaderboard p) = display_leaderboard st i p"
| "run_command st i (TopLevel p) = display_leaderboard st i p"
| "run_command st i (AddExp u n) = add_exp st i u n"
| "run_command st i (RemoveExp u n) = remove_exp st i u n"
| "run_command st i (SetExp u n) = set_exp st i u n"
| "run_command st i (SetActivity u m t) = set_activity st i u m t"
| "run_command st i ToggleRemovePrevious = toggle_remove_previous st i"
| "run_command st i (LevelDebug u) = level_debug st i u"
| "run_command st i BlacklistList = blacklist_list_channels st i"
| "run_command st i (BlacklistAdd c) = blacklist_add_channel st i c"
| "run_command st i (BlacklistRemove c) = blacklist_remove_channel st i c"
| "run_command st i XpSettingsShow = show_xp_settings st i"
| "run_command st i (XpSettingsSet a b c) = set_xp_settings st i a b c"
| "run_command st i (RoleMultiplierSet r m) = role_multiplier_set st i r m"
| "run_command st i RoleMultiplierList = role_multiplier_list st i"
| "run_command st i (LevelRewardSet n r) = set_level_reward st i n r"
| "run_command st i (LevelRewardRemove n) = remove_level_reward st i n"
| "run_command st i LevelRewardList = list_level_rewards st i"
| "run_command st i (RewardsMessageSet n m) = set_rewards_message st i n m"
| "run_command st i RewardsMessageList = list_rewards_messages st i"
| "run_command st i (RewardsChannel c) = set_rewards_channel st i c"
| "run_command st i (AdminRoleAdd r) = add_admin_role st i r"
| "run_command st i (AdminRoleRemove r) = remove_admin_role st i r"
| "run_command st i AdminRoleList = list_admin_roles st i"

datatype event = OnMessage message int | VoiceTick "guild list" | Command interaction command

fun step :: "state \<Rightarrow> event \<Rightarrow> outcome" where
  "step st (OnMessage msg current_time) = on_message st msg current_time"
| "step st (VoiceTick guilds) = voice_exp_task st guilds"
| "step st (Command i c) = run_command st i c"

section \<open>Example data\<close>

definition demo_config :: config where
  "demo_config = \<lparr>level_rewards = None, remove_previous_rewards = None, role_multipliers = None,
     blacklisted_channels = Some [7], exp_per_message = Some 10, exp_per_voice_minute = Some 5,
     message_cooldown = Some 60, admin_roles = None, level_manager_roles = None,
     level_channel_id = None, reward_messages = None, rewards_messages = None\<rparr>"

definition demo_state :: state where
  "demo_state = \<lparr>db_ready = True, config = demo_config, user_levels = Map.empty,
     user_rewards = [], message_cooldowns = Map.empty\<rparr>"

definition demo_admin :: member where
  "demo_admin = \<lparr>m_id = 1, m_guild = 100, m_bot = False, m_roles = [], m_administrator = True,
     m_self_deaf = False\<rparr>"

definition demo_member :: member where
  "demo_member = \<lparr>m_id = 2, m_guild = 100, m_bot = False, m_roles = [42], m_administrator = False,
     m_self_deaf = False\<rparr>"

definition demo_interaction :: interaction where
  "demo_interaction = \<lparr>i_user = demo_admin, i_guild = 100\<rparr>"

definition demo_listener :: member where
  "demo_listener = \<lparr>m_id = 3, m_guild = 100, m_bot = False, m_roles = [], m_administrator = False,
     m_self_deaf = False\<rparr>"

definition demo_row :: user_row where
  "demo_row = \<lparr>exp_pts = 10, level = 0, total_messages = 1, voice_time = 3, welcome_count = 0\<rparr>"

definition demo_voice_state :: state where
  "demo_voice_state = demo_state\<lparr>user_levels := [(100, 2) \<mapsto> demo_row, (100, 3) \<mapsto> demo_row]\<rparr>"

definition demo_quiet_channel :: voice_channel where
  "demo_quiet_channel = \<lparr>vc_id = 5, vc_members = [demo_member]\<rparr>"

definition demo_busy_channel :: voice_channel where
  "demo_busy_channel = \<lparr>vc_id = 6, vc_members = [demo_member, demo_listener]\<rparr>"

definition demo_guild :: guild where
  "demo_guild = \<lparr>g_id = 100, g_voice_channels = [demo_quiet_channel]\<rparr>"

definition demo_busy_guild :: guild where
  "demo_busy_guild = \<lparr>g_id = 100, g_voice_channels = [demo_busy_channel]\<rparr>"

definition demo_message :: message where
  "demo_message = \<lparr>msg_author = demo_member, msg_in_guild = True, msg_channel = 8\<rparr>"

definition demo_multiplier_state :: state where
  "demo_multiplier_state = out_state (role_multiplier_set demo_state demo_interaction 42 (1 / 2))"

definition nonneg_rates :: "config \<Rightarrow> bool" where
  "nonneg_rates cfg \<longleftrightarrow> 0 \<le> cfg_get (exp_per_message cfg) 0 \<and> 0 \<le> cfg_get (exp_per_voice_minute cfg) 0"

definition written_ok :: "config \<Rightarrow> user_row \<Rightarrow> bool" where
  "written_ok cfg r \<longleftrightarrow>
     calculate_level (exp_pts r) = Inr (level r) \<and> (nonneg_rates cfg \<longrightarrow> 0 \<le> exp_pts r)"

definition rows_changed_sat :: "(user_row \<Rightarrow> bool) \<Rightarrow> state \<Rightarrow> state \<Rightarrow> bool" where
  "rows_changed_sat P st st' \<longleftrightarrow>
     (\<forall>k r'. user_levels st' k = Some r' \<longrightarrow> user_levels st k \<noteq> Some r' \<longrightarrow> P r')"

fun public_command :: "command \<Rightarrow> bool" where
  "public_command (LevelInfo u) = True"
| "public_command (LevelAlias u) = True"
| "public_command (LeaderboardFr p) = True"
| "public_command (Leaderboard p) = True"
| "public_command (TopLevel p) = True"
| "public_command c = False"

fun unguarded_command :: "command \<Rightarrow> bool" where
  "unguarded_command ToggleRemovePrevious = True"
| "unguarded_command (LevelDebug u) = True"
| "unguarded_command c = False"

definition demo_down_state :: state where
  "demo_down_state = demo_state\<lparr>db_ready := False\<rparr>"

definition demo_visitor :: interaction where
  "demo_visitor = \<lparr>i_user = demo_member, i_guild = 100\<rparr>"

definition configured_rewards :: "state \<Rightarrow> (int \<times> role_id) list" where
  "configured_rewards st = parsed_rewards (cfg_get (level_rewards (config st)) [])"

definition demo_rewards_state :: state where
  "demo_rewards_state =
     demo_state\<lparr>config := demo_config\<lparr>level_rewards := Some [(''5'', 11), (''10'', 12)]\<rparr>\<rparr>"

definition demo_shared_state :: state where
  "demo_shared_state =
     demo_state\<lparr>config := demo_config\<lparr>level_rewards := Some [(''5'', 11), (''10'', 11)]\<rparr>\<rparr>"

definition demo_env :: discord_env where
  "demo_env = \<lparr>guild_roles = [11, 12], add_fails = [], remove_fails = []\<rparr>"

definition demo_holder :: member where
  "demo_holder = \<lparr>m_id = 4, m_guild = 100, m_bot = False, m_roles = [11], m_administrator = False,
     m_self_deaf = False\<rparr>"

definition demo_cooldown_state :: state where
  "demo_cooldown_state = demo_state\<lparr>message_cooldowns := [2 \<mapsto> 0]\<rparr>"


lemma pow2_pos_eq: "pow2_pos e = 2 ^ nat e"
proof (induction e rule: pow2_pos.induct)
  case (1 e)
  show ?case
  proof (cases "e \<le> 0")
    case True
    then show ?thesis by (simp add: pow2_pos.simps)
  next
    case False
    define h where "h = pow2_pos (e div 2)"
    have ih: "h = 2 ^ nat (e div 2)" using 1 False by (simp add: h_def)
    have unf: "pow2_pos e = (if even e then h * h else 2 * h * h)"
      using False by (subst pow2_pos.simps) (simp add: Let_def h_def)
    have hh: "h * h = 2 ^ (nat (e div 2) + nat (e div 2))"
      by (simp only: ih power_add)
    show ?thesis
    proof (cases "even e")
      case True
      then have "nat (e div 2) + nat (e div 2) = nat e" using False by (auto elim!: evenE)
      then show ?thesis using True unf hh by simp
    next
      case odd: False
      then have "Suc (nat (e div 2) + nat (e div 2)) = nat e" using False by (auto elim!: oddE)
      then have "(2::rat) ^ nat e = 2 * 2 ^ (nat (e div 2) + nat (e div 2))"
        by (metis power_Suc)
      then show ?thesis using odd unf hh by simp
    qed
  qed
qed

lemma pow2_powi: "pow2 e = 2 powi e"
proof (cases "0 \<le> e")
  case True
  then show ?thesis by (simp add: pow2_def pow2_pos_eq power_int_def)
next
  case False
  then have "pow2 e = 1 / 2 ^ nat (- e)" by (simp add: pow2_def pow2_pos_eq)
  also have "\<dots> = inverse 2 ^ nat (- e)" by (simp add: power_inverse inverse_eq_divide power_one_over)
  finally show ?thesis using False by (simp only: power_int_def) simp
qed

lemma pow2_pos [simp]: "0 < pow2 e"
  by (simp add: pow2_powi)

lemma pow2_add: "pow2 (a + b) = pow2 a * pow2 b"
  by (simp add: pow2_powi power_int_add)

lemma pow2_nonpos: "e \<le> 0 \<Longrightarrow> pow2 e = 1 / 2 ^ nat (- e)"
  by (cases "e = 0") (simp_all add: pow2_def pow2_pos_eq)

lemma pow2_nat: "pow2 (int n) = 2 ^ n"
  by (simp add: pow2_def pow2_pos_eq)

lemma pow2_mono: "a \<le> b \<Longrightarrow> pow2 a \<le> pow2 b"
  by (simp add: pow2_powi power_int_increasing)

lemma pow2_strict_mono: "a < b \<Longrightarrow> pow2 a < pow2 b"
  by (simp add: pow2_powi power_int_strict_increasing)

lemma pow2_less_iff: "pow2 a < pow2 b \<longleftrightarrow> a < b"
  using pow2_strict_mono [of a b] pow2_mono [of b a] by (cases "a < b") auto

lemma isqrt_nonneg: "0 \<le> isqrt n"
  by (induction n rule: isqrt.induct) (subst isqrt.simps, simp add: Let_def)

lemma isqrt_bounds: "0 \<le> n \<Longrightarrow> isqrt n * isqrt n \<le> n \<and> n < (isqrt n + 1) * (isqrt n + 1)"
proof (induction n rule: isqrt.induct)
  case (1 n)
  show ?case
  proof (cases "n < 4")
    case True
    with 1(2) show ?thesis by (subst (1 2 3 4) isqrt.simps) auto
  next
    case False
    define r where "r = isqrt (n div 4)"
    have ih: "r * r \<le> n div 4 \<and> n div 4 < (r + 1) * (r + 1)"
      using 1 False by (simp add: r_def)
    have r0: "0 \<le> r" by (simp add: r_def isqrt_nonneg)
    have lo: "(2 * r) * (2 * r) \<le> n" using ih by (simp add: algebra_simps) linarith
    have "n div 4 + 1 \<le> (r + 1) * (r + 1)" using ih by simp
    then have "4 * (n div 4) + 4 \<le> (2 * r + 2) * (2 * r + 2)" by (simp add: algebra_simps)
    then have hi: "n < (2 * r + 2) * (2 * r + 2)" by linarith
    have eq: "isqrt n = (if (2 * r + 1) * (2 * r + 1) \<le> n then 2 * r + 1 else 2 * r)"
      using False by (subst isqrt.simps) (simp add: Let_def r_def)
    show ?thesis
    proof (cases "(2 * r + 1) * (2 * r + 1) \<le> n")
      case True
      then have e1: "isqrt n = 2 * r + 1" by (simp add: eq)
      have e2: "2 * r + 1 + 1 = 2 * r + 2" by simp
      show ?thesis unfolding e1 e2 using True hi by blast
    next
      case nle: False
      then have e1: "isqrt n = 2 * r" by (simp add: eq)
      show ?thesis unfolding e1 using nle lo by simp
    qed
  qed
qed

lemma isqrt_unique: "0 \<le> k \<Longrightarrow> k * k \<le> n \<Longrightarrow> n < (k + 1) * (k + 1) \<Longrightarrow> isqrt n = k"
proof -
  assume k: "0 \<le> k" "k * k \<le> n" "n < (k + 1) * (k + 1)"
  then have n: "0 \<le> n" by (smt (verit) zero_le_square)
  let ?f = "isqrt n"
  have b: "?f * ?f \<le> n" "n < (?f + 1) * (?f + 1)" using isqrt_bounds [OF n] by auto
  have f0: "0 \<le> ?f" by (rule isqrt_nonneg)
  have "\<not> ?f < k"
  proof
    assume "?f < k" then have "?f + 1 \<le> k" by simp
    then have "(?f + 1) * (?f + 1) \<le> k * k" using f0 by (intro mult_mono) auto
    with b k show False by linarith
  qed
  moreover have "\<not> k < ?f"
  proof
    assume "k < ?f" then have "k + 1 \<le> ?f" by simp
    then have "(k + 1) * (k + 1) \<le> ?f * ?f" using k by (intro mult_mono) auto
    with b k show False by linarith
  qed
  ultimately show ?thesis by simp
qed

lemma rhe_ge: "of_int k \<le> q \<Longrightarrow> k \<le> round_half_even q"
proof -
  assume "of_int k \<le> q"
  then have "k \<le> \<lfloor>q\<rfloor>" by (simp add: le_floor_iff)
  then show ?thesis by (auto simp: round_half_even_def Let_def)
qed

lemma rhe_floor: "\<lfloor>q\<rfloor> \<le> round_half_even q \<and> round_half_even q \<le> \<lfloor>q\<rfloor> + 1"
  by (simp add: round_half_even_def Let_def)

lemma rhe_le: "q \<le> of_int k \<Longrightarrow> round_half_even q \<le> k"
proof -
  assume a: "q \<le> of_int k"
  have fk: "\<lfloor>q\<rfloor> \<le> k" using a by (simp add: floor_le_iff)
  show ?thesis
  proof (cases "\<lfloor>q\<rfloor> = k")
    case True
    then have "q - of_int \<lfloor>q\<rfloor> < 1 / 2" using a by simp
    then show ?thesis using True by (simp add: round_half_even_def Let_def)
  next
    case False
    then have "\<lfloor>q\<rfloor> + 1 \<le> k" using fk by simp
    then show ?thesis using rhe_floor [of q] by linarith
  qed
qed

lemma bitlen_pow2_bounds:
  assumes "0 < p"
  shows "pow2 (bitlen p - 1) \<le> of_int p" "of_int p < pow2 (bitlen p)"
proof -
  have b1: "1 \<le> bitlen p" using assms by (auto simp: bitlen_alt_def)
  have "2 ^ nat (bitlen p - 1) \<le> p" "p < 2 ^ nat (bitlen p)"
    using bitlen_bounds [OF assms] by auto
  then have "(of_int (2 ^ nat (bitlen p - 1)) :: rat) \<le> of_int p"
    "(of_int p :: rat) < of_int (2 ^ nat (bitlen p))"
    by (simp_all only: of_int_le_iff of_int_less_iff)
  then show "pow2 (bitlen p - 1) \<le> of_int p" "of_int p < pow2 (bitlen p)"
    using b1 by (simp_all add: pow2_def pow2_pos_eq)
qed

lemma ilog2_bounds:
  assumes "0 < x"
  shows "pow2 (ilog2 x) \<le> x" "x < pow2 (ilog2 x + 1)"
proof -
  obtain p q where pq: "quotient_of x = (p, q)" by (cases "quotient_of x")
  have q: "0 < q" using pq by (rule quotient_of_denom_pos)
  have x: "x = of_int p / of_int q" using pq by (rule quotient_of_div)
  have p: "0 < p" using assms q x by (simp add: zero_less_divide_iff)
  define d where "d = bitlen p - bitlen q"
  note bp = bitlen_pow2_bounds [OF p] and bq = bitlen_pow2_bounds [OF q]
  have qpos: "(0::rat) < of_int q" using q by simp
  have "x * of_int q < pow2 (bitlen p)" using bp x qpos by simp
  also have "pow2 (bitlen p) = pow2 (d + 1) * pow2 (bitlen q - 1)"
    by (simp add: d_def pow2_add [symmetric])
  also have "\<dots> \<le> pow2 (d + 1) * of_int q"
    using bq by (intro mult_left_mono) (auto simp: less_imp_le)
  finally have up: "x < pow2 (d + 1)" using qpos by simp
  have "pow2 (d - 1) * of_int q \<le> pow2 (d - 1) * pow2 (bitlen q)"
    using bq by (intro mult_left_mono) (auto simp: less_imp_le)
  also have "\<dots> = pow2 (bitlen p - 1)" by (simp add: d_def pow2_add [symmetric])
  also have "\<dots> \<le> x * of_int q" using bp x qpos by simp
  finally have lo: "pow2 (d - 1) \<le> x" using qpos by simp
  have il: "ilog2 x = (if pow2 d \<le> x then d else d - 1)"
    by (simp add: ilog2_def pq d_def Let_def)
  show "pow2 (ilog2 x) \<le> x" using lo by (simp add: il)
  show "x < pow2 (ilog2 x + 1)" using up by (auto simp: il not_le)
qed

lemma ilog2_range:
  assumes "pow2 a \<le> x" "x < pow2 b"
  shows "a \<le> ilog2 x" "ilog2 x < b"
proof -
  have x: "0 < x" using assms(1) pow2_pos [of a] by linarith
  note il = ilog2_bounds [OF x]
  have "pow2 a < pow2 (ilog2 x + 1)" using assms(1) il(2) by linarith
  then show "a \<le> ilog2 x" by (simp add: pow2_less_iff)
  have "pow2 (ilog2 x) < pow2 b" using assms(2) il(1) by linarith
  then show "ilog2 x < b" by (simp add: pow2_less_iff)
qed

lemma fl_round_scaled:
  assumes "1 \<le> x" "x < 2 ^ 46"
  obtains n where "7 \<le> n" "n \<le> 52" "fl_round x = of_int (round_half_even (x * 2 ^ n)) / 2 ^ n"
proof -
  have "pow2 0 \<le> x" "x < pow2 46" using assms by (simp_all add: pow2_def pow2_pos_eq)
  then have L: "0 \<le> ilog2 x" "ilog2 x < 46" by (rule ilog2_range)+
  define n where "n = nat (52 - ilog2 x)"
  have n: "7 \<le> n" "n \<le> 52" using L by (simp_all add: n_def)
  have e: "max (ilog2 x - 52) (- 1074) = ilog2 x - 52" using L by simp
  have p: "pow2 (ilog2 x - 52) = 1 / 2 ^ n" using L by (simp add: pow2_nonpos n_def)
  have x0: "x \<noteq> 0" "\<bar>x\<bar> = x" "sgn x = 1" using assms by simp_all
  have "fl_round x = of_int (round_half_even (x * 2 ^ n)) / 2 ^ n"
    by (simp add: fl_round_def x0 e p Let_def)
  then show thesis using n that by blast
qed

lemma fl_round_grid:
  assumes "1 \<le> x" "x < 2 ^ 46"
  shows "of_int A / 128 \<le> x \<Longrightarrow> of_int A / 128 \<le> fl_round x"
    and "x \<le> of_int B / 128 \<Longrightarrow> fl_round x \<le> of_int B / 128"
proof -
  obtain n where n: "7 \<le> n" "n \<le> 52"
    and fl: "fl_round x = of_int (round_half_even (x * 2 ^ n)) / 2 ^ n"
    using fl_round_scaled [OF assms] by blast
  have pw: "(2::rat) ^ n = 128 * 2 ^ (n - 7)"
  proof -
    have "n = 7 + (n - 7)" using n by simp
    then have "(2::rat) ^ n = 2 ^ 7 * 2 ^ (n - 7)" by (metis power_add)
    then show ?thesis by simp
  qed
  have sc: "of_int C / 128 = of_int (C * 2 ^ (n - 7)) / (2::rat) ^ n" for C :: int
    by (simp add: pw)
  {
    assume "of_int A / 128 \<le> x"
    then have "of_int (A * 2 ^ (n - 7)) / 2 ^ n \<le> x" by (simp only: sc)
    then have "of_int (A * 2 ^ (n - 7)) \<le> x * 2 ^ n" by (simp add: pos_divide_le_eq)
    then have "A * 2 ^ (n - 7) \<le> round_half_even (x * 2 ^ n)" by (rule rhe_ge)
    then have "(of_int (A * 2 ^ (n - 7)) :: rat) \<le> of_int (round_half_even (x * 2 ^ n))"
      by (simp only: of_int_le_iff)
    then have "of_int (A * 2 ^ (n - 7)) / 2 ^ n \<le> fl_round x"
      by (simp add: fl divide_right_mono)
    then show "of_int A / 128 \<le> fl_round x" by (simp only: sc)
  }
  {
    assume "x \<le> of_int B / 128"
    then have "x \<le> of_int (B * 2 ^ (n - 7)) / 2 ^ n" by (simp only: sc)
    then have "x * 2 ^ n \<le> of_int (B * 2 ^ (n - 7))" by (simp add: pos_le_divide_eq)
    then have "round_half_even (x * 2 ^ n) \<le> B * 2 ^ (n - 7)" by (rule rhe_le)
    then have "(of_int (round_half_even (x * 2 ^ n)) :: rat) \<le> of_int (B * 2 ^ (n - 7))"
      by (simp only: of_int_le_iff)
    then have "fl_round x \<le> of_int (B * 2 ^ (n - 7)) / 2 ^ n"
      by (simp add: fl divide_right_mono)
    then show "fl_round x \<le> of_int B / 128" by (simp only: sc)
  }
qed

lemma sq_less_imp_less:
  fixes a b :: int
  assumes "a * a < b * b" "0 \<le> b"
  shows "a < b"
proof (rule ccontr)
  assume "\<not> a < b"
  then have "b \<le> a" by simp
  then have "b * b \<le> a * a" using assms(2) by (intro mult_mono) auto
  with assms(1) show False by simp
qed

lemma fl_sqrt_sandwich:
  assumes k: "0 \<le> k"
    and lo: "of_int k * of_int k \<le> r"
    and hi: "r \<le> (of_int k + 1) * (of_int k + 1) - 1 / 128"
    and r1: "1 \<le> r" and r2: "r < 2 ^ 46"
  shows "of_int k \<le> fl_sqrt r \<and> fl_sqrt r < of_int k + 1"
proof -
  have "pow2 0 \<le> r" "r < pow2 46" using r1 r2 by (simp_all add: pow2_def pow2_pos_eq)
  then have L: "0 \<le> ilog2 r" "ilog2 r < 46" by (rule ilog2_range)+
  define n where "n = nat (52 - ilog2 r div 2)"
  have n: "30 \<le> n" "n \<le> 52" using L by (simp_all add: n_def)
  define P :: int where "P = 2 ^ n"
  have P0: "0 < P" by (simp add: P_def)
  define E where "E = ilog2 r div 2 - 52"
  have e1: "pow2 E = 1 / of_int P"
    using L by (simp add: pow2_nonpos n_def P_def E_def)
  have "2 * E \<le> 0" "nat (- (2 * E)) = n + n"
    using L by (simp_all add: n_def E_def)
  then have e2: "pow2 (2 * E) = 1 / (of_int P * of_int P)"
    by (simp add: pow2_nonpos P_def power_add)
  define z where "z = r * (of_int P * of_int P)"
  define f where "f = isqrt \<lfloor>z\<rfloor>"
  define h :: rat where "h = (of_int f + 1 / 2) * (of_int f + 1 / 2)"
  define m where "m = (if z < h then f else if h < z then f + 1 else if even f then f else f + 1)"
  have r0: "r \<noteq> 0" using r1 by simp
  have "fl_sqrt r = (let e = E; z = r / pow2 (2 * e); f = isqrt \<lfloor>z\<rfloor>;
         h = (of_int f + 1 / 2) * (of_int f + 1 / 2);
         m = (if z < h then f else if h < z then f + 1 else if even f then f else f + 1)
     in of_int m * pow2 e)"
    by (simp only: fl_sqrt_def r0 if_False E_def)
  then have res: "fl_sqrt r = of_int m / of_int P"
    unfolding Let_def e1 e2 by (simp add: z_def f_def h_def m_def)
  have z0: "0 \<le> \<lfloor>z\<rfloor>" using r1 P0 by (simp add: z_def)
  have fb: "f * f \<le> \<lfloor>z\<rfloor>" "\<lfloor>z\<rfloor> < (f + 1) * (f + 1)" "0 \<le> f"
    using isqrt_bounds [OF z0] isqrt_nonneg by (simp_all add: f_def)
  define K where "K = k * P"
  define K' where "K' = (k + 1) * P"
  have K0: "0 \<le> K" "0 < K'" using k P0 by (simp_all add: K_def K'_def)
  \<comment> \<open>lower bound\<close>
  have "of_int (K * K) \<le> z"
  proof -
    have "of_int k * of_int k * (of_int P * of_int P) \<le> r * (of_int P * of_int P :: rat)"
      using lo P0 by (intro mult_right_mono) auto
    then show ?thesis by (simp add: z_def K_def algebra_simps)
  qed
  then have "K * K \<le> \<lfloor>z\<rfloor>" by (simp add: le_floor_iff)
  then have KK: "K * K < (f + 1) * (f + 1)" using fb by linarith
  have f1: "0 \<le> f + 1" using fb(3) by simp
  have "K < f + 1" by (rule sq_less_imp_less [OF KK f1])
  then have Kf: "K \<le> f" by simp
  \<comment> \<open>upper bound\<close>
  have k23: "k + 1 \<le> 2 ^ 23"
  proof (rule ccontr)
    assume "\<not> k + 1 \<le> 2 ^ 23"
    then have a: "2 ^ 23 \<le> k" by simp
    have "(2 ^ 23) * (2 ^ 23) \<le> k * k"
      by (rule mult_mono [OF a a]) (use k in simp_all)
    then have "(of_int ((2 ^ 23) * (2 ^ 23)) :: rat) \<le> of_int (k * k)"
      by (simp only: of_int_le_iff)
    then have "(2::rat) ^ 46 \<le> of_int k * of_int k" by simp
    then show False using lo r2 by linarith
  qed
  have P30: "2 ^ 30 \<le> P" unfolding P_def using n by (intro power_increasing) auto
  have "128 * (k + 1) \<le> 128 * 2 ^ 23" using k23 by simp
  also have "\<dots> \<le> P" using P30 by simp
  finally have kP: "128 * (k + 1) \<le> P" .
  have "128 * K' \<le> P * P" using kP P0 by (simp add: K'_def mult_right_mono)
  then have "(of_int (128 * K') :: rat) \<le> of_int (P * P)" by (simp only: of_int_le_iff)
  then have KP: "of_int K' \<le> of_int P * of_int P / (128::rat)" by simp
  have "z \<le> ((of_int k + 1) * (of_int k + 1) - 1 / 128) * (of_int P * of_int P)"
    unfolding z_def using hi P0 by (intro mult_right_mono) auto
  also have "\<dots> = of_int K' * of_int K' - of_int P * of_int P / 128"
    by (simp add: K'_def algebra_simps)
  also have "\<dots> \<le> of_int K' * of_int K' - of_int K'" using KP by simp
  also have "\<dots> < (of_int K' - 1 / 2) * (of_int K' - 1 / 2)" by (simp add: algebra_simps)
  finally have zlt: "z < (of_int K' - 1 / 2) * (of_int K' - 1 / 2)" .
  have "(of_int K' - 1 / 2) * (of_int K' - 1 / 2) < (of_int K' * of_int K' :: rat)"
    using K0 by (simp add: algebra_simps)
  then have "z < of_int (K' * K')" using zlt by simp
  then have "\<lfloor>z\<rfloor> < K' * K'" by (simp add: floor_less_iff)
  then have ff: "f * f < K' * K'" using fb by linarith
  have K'0: "0 \<le> K'" using K0 by simp
  have fK: "f < K'" by (rule sq_less_imp_less [OF ff K'0])
  have mK: "m \<le> K' - 1"
  proof (cases "f = K' - 1")
    case True
    then have "h = (of_int K' - 1 / 2) * (of_int K' - 1 / 2)" by (simp add: h_def)
    then have "z < h" using zlt by simp
    then show ?thesis using True by (simp add: m_def)
  next
    case False
    then have "f + 1 \<le> K' - 1" using fK by simp
    moreover have "m \<le> f + 1" by (simp add: m_def)
    ultimately show ?thesis by linarith
  qed
  have fm: "f \<le> m" by (simp add: m_def)
  have "K \<le> m" using Kf fm by simp
  then have "(of_int (k * P) :: rat) \<le> of_int m" unfolding K_def by (simp only: of_int_le_iff)
  then have A: "of_int k \<le> fl_sqrt r" using P0 by (simp add: res pos_le_divide_eq)
  have "m < (k + 1) * P" using mK by (simp add: K'_def)
  then have "(of_int m :: rat) < of_int ((k + 1) * P)" by (simp only: of_int_less_iff)
  then have B: "fl_sqrt r < of_int k + 1" using P0 by (simp add: res pos_divide_less_eq)
  show ?thesis using A B by simp
qed

lemma calculate_level_exact:
  assumes "75 \<le> xp" "xp < 75 * 2 ^ 46"
  shows "calculate_level xp = Inr (isqrt (xp div 75))"
proof -
  define x :: rat where "x = of_int xp / of_int 75"
  define k where "k = isqrt (xp div 75)"
  have d0: "0 \<le> xp div 75" using assms by simp
  have kb: "k * k \<le> xp div 75" "xp div 75 < (k + 1) * (k + 1)" "0 \<le> k"
    using isqrt_bounds [OF d0] isqrt_nonneg by (simp_all add: k_def)
  have x1: "1 \<le> x" using assms by (simp add: x_def)
  have "(of_int xp :: rat) < of_int (75 * 2 ^ 46)" using assms(2) by (simp only: of_int_less_iff)
  then have x2: "x < 2 ^ 46" by (simp add: x_def)
  have "75 * (k * k) \<le> xp" using kb(1) by linarith
  then have "(of_int (75 * (k * k)) :: rat) \<le> of_int xp" by (simp only: of_int_le_iff)
  then have lo: "of_int (128 * (k * k)) / 128 \<le> x" by (simp add: x_def)
  have "xp div 75 + 1 \<le> (k + 1) * (k + 1)" using kb(2) by simp
  then have "xp + 1 \<le> 75 * ((k + 1) * (k + 1))" by linarith
  then have "(of_int (xp + 1) :: rat) \<le> of_int (75 * ((k + 1) * (k + 1)))"
    by (simp only: of_int_le_iff)
  then have "x \<le> of_int ((k + 1) * (k + 1)) - 1 / 75" by (simp add: x_def field_simps)
  then have hi: "x \<le> of_int (128 * ((k + 1) * (k + 1)) - 1) / 128" by simp
  define r where "r = fl_round x"
  have rlo: "of_int (128 * (k * k)) / 128 \<le> r"
    unfolding r_def by (rule fl_round_grid(1) [OF x1 x2 lo])
  have rhi: "r \<le> of_int (128 * ((k + 1) * (k + 1)) - 1) / 128"
    unfolding r_def by (rule fl_round_grid(2) [OF x1 x2 hi])
  have "of_int (128 * 1) / 128 \<le> x" using x1 by simp
  then have "of_int (128 * 1) / 128 \<le> r" unfolding r_def by (rule fl_round_grid(1) [OF x1 x2])
  then have r1: "1 \<le> r" by simp
  have "x \<le> of_int (128 * 2 ^ 46 - 1) / 128" 
  proof -
    have "xp + 1 \<le> 75 * 2 ^ 46" using assms(2) by simp
    then have "(of_int (xp + 1) :: rat) \<le> of_int (75 * 2 ^ 46)" by (simp only: of_int_le_iff)
    then have "x \<le> 2 ^ 46 - 1 / 75" by (simp add: x_def field_simps)
    then show ?thesis by simp
  qed
  then have "r \<le> of_int (128 * 2 ^ 46 - 1) / 128" unfolding r_def by (rule fl_round_grid(2) [OF x1 x2])
  then have r2: "r < 2 ^ 46" by simp
  have slo: "of_int k * of_int k \<le> r" using rlo by simp
  have shi: "r \<le> (of_int k + 1) * (of_int k + 1) - 1 / 128" using rhi by (simp add: field_simps)
  note sq = fl_sqrt_sandwich [OF kb(3) slo shi r1 r2]
  have "pow2 46 \<le> pow2 1024" by (rule pow2_mono) simp
  then have "r < pow2 1024" using r2 by (simp add: pow2_nat [of 46, simplified])
  then have novf: "\<not> pow2 1024 \<le> \<bar>r\<bar>" using r1 by simp
  have td: "py_truediv xp 75 = Inr r"
    using novf by (simp add: py_truediv_def Let_def r_def x_def)
  have sq2: "py_sqrt r = Inr (fl_sqrt r)" using r1 by (simp add: py_sqrt_def)
  have "(0::rat) \<le> of_int k" using kb(3) by simp
  then have "0 \<le> fl_sqrt r" using sq by linarith
  moreover have "\<lfloor>fl_sqrt r\<rfloor> = k" using sq by (intro floor_unique) auto
  ultimately have "py_int (fl_sqrt r) = k" by (simp add: py_int_def)
  then show ?thesis using assms(1) by (simp add: calculate_level_def td sq2 k_def)
qed

lemma isqrt_floor_sqrt:
  assumes "0 \<le> xp"
  shows "isqrt (xp div 75) = \<lfloor>sqrt (real_of_int xp / 75)\<rfloor>"
proof -
  define k where "k = isqrt (xp div 75)"
  have d0: "0 \<le> xp div 75" using assms by simp
  have kb: "k * k \<le> xp div 75" "xp div 75 < (k + 1) * (k + 1)" "0 \<le> k"
    using isqrt_bounds [OF d0] isqrt_nonneg by (simp_all add: k_def)
  have "75 * (k * k) \<le> xp" using kb(1) by linarith
  then have "real_of_int (75 * (k * k)) \<le> real_of_int xp" by (simp only: of_int_le_iff)
  then have "(real_of_int k)\<^sup>2 \<le> real_of_int xp / 75" by (simp add: power2_eq_square)
  then have A: "real_of_int k \<le> sqrt (real_of_int xp / 75)" by (rule real_le_rsqrt)
  have "xp div 75 + 1 \<le> (k + 1) * (k + 1)" using kb(2) by simp
  then have "xp < 75 * ((k + 1) * (k + 1))" by linarith
  then have "real_of_int xp < real_of_int (75 * ((k + 1) * (k + 1)))" by (simp only: of_int_less_iff)
  then have "real_of_int xp / 75 < (real_of_int k + 1)\<^sup>2" by (simp add: power2_eq_square)
  then have B: "sqrt (real_of_int xp / 75) < real_of_int k + 1"
    using kb(3) by (intro real_less_lsqrt) auto
  have "\<lfloor>sqrt (real_of_int xp / 75)\<rfloor> = k" using A B by (intro floor_unique) auto
  then show ?thesis by (simp add: k_def)
qed

lemma call_from_voice: "call_update_user_exp st m e [(''from_voice'', VBool True)] = Inl TypeError"
  by (simp add: call_update_user_exp_def)

lemma voice_members_acc:
  "voice_members base ms acc = Inr acc \<or> (\<exists>e. voice_members base ms acc = Inl (e, acc))"
  by (cases ms; cases acc) (auto simp: call_from_voice split: sum.splits)

lemma voice_channels_acc:
  "voice_channels bl base vcs acc = Inr acc \<or> (\<exists>e. voice_channels bl base vcs acc = Inl (e, acc))"
proof (induction vcs)
  case Nil
  show ?case by simp
next
  case (Cons vc vcs)
  show ?case
    using Cons.IH voice_members_acc [of base "active_members vc" acc] by auto
qed

lemma voice_guilds_acc:
  "voice_guilds bl gs acc = Inr acc \<or> (\<exists>e. voice_guilds bl gs acc = Inl (e, acc))"
proof (induction gs)
  case Nil
  show ?case by simp
next
  case (Cons g gs)
  obtain st tasks where acc: "acc = (st, tasks)" by (cases acc)
  show ?case
    using Cons.IH
      voice_channels_acc [of bl "cfg_get (exp_per_voice_minute (config st)) 0" "g_voice_channels g" acc]
    by (auto simp: acc)
qed

lemma voice_exp_task_state: "out_state (voice_exp_task st guilds) = st"
  using voice_guilds_acc [of "cfg_get (blacklisted_channels (config st)) []" guilds "(st, [])"]
  by (auto simp: voice_exp_task_def silent_def)

text \<open>
  Claim C5. A voice tick leaves the stored row (points, voice minutes and every other column)
  of every member of a voice channel with fewer than two eligible members (non-bot and
  not self-deafened) exactly as it was.
\<close>

theorem voice_tick_skips_small_channels:
  assumes "g \<in> set guilds" and "vc \<in> set (g_voice_channels g)"
    and "length (active_members vc) < 2" and "m \<in> set (vc_members vc)"
  shows "user_levels (out_state (voice_exp_task st guilds)) (g_id g, m_id m)
         = user_levels st (g_id g, m_id m)"
  by (simp add: voice_exp_task_state)

text \<open>
  Claim C10. When exactly one of the two optional parameters of \<open>xp-set-activity\<close> is
  omitted, the command never reaches its database update: the state is unchanged, no
  confirmation embed is sent, and the command ends either with a failure reply or with the
  \<open>TypeError\<close> raised by comparing \<open>None\<close> with \<open>0\<close>. The omitted value is never
  replaced by the stored one.
\<close>

theorem set_activity_one_omitted:
  assumes "(messages = None) \<noteq> (temps_vocal = None)"
  shows "out_state (set_activity st i u messages temps_vocal) = st
         \<and> out_reply (set_activity st i u messages temps_vocal) \<noteq> Some Embed
         \<and> (out_raised (set_activity st i u messages temps_vocal) = Some TypeError
            \<or> (\<exists>f. out_reply (set_activity st i u messages temps_vocal) = Some (Failure f)))"
  using assms
  by (cases messages; cases temps_vocal)
     (auto simp: set_activity_def py_lt_zero_def respond_def raises_def split: bool.splits)

theorem voice_tick_skips_small_channels_witness:
  "demo_guild \<in> set [demo_guild] \<and> demo_quiet_channel \<in> set (g_voice_channels demo_guild)
   \<and> length (active_members demo_quiet_channel) < 2
   \<and> demo_member \<in> set (vc_members demo_quiet_channel)
   \<and> user_levels (out_state (voice_exp_task demo_voice_state [demo_guild])) (100, 2)
       = user_levels demo_voice_state (100, 2)"
  using voice_tick_skips_small_channels
    [of demo_guild "[demo_guild]" demo_quiet_channel demo_member demo_voice_state]
  by (simp add: demo_guild_def demo_quiet_channel_def active_members_def demo_member_def)

text \<open>
  Claim C4. The voice tick calls \<open>update_user_exp\<close> with the keyword \<open>from_voice\<close>, which
  the function does not accept. On a channel with two eligible members the tick therefore
  ends with \<open>TypeError\<close> at the first member, and neither member's points nor voice minutes
  change.
\<close>

theorem voice_tick_raises_type_error:
  "length (active_members demo_busy_channel) = 2
   \<and> out_raised (voice_exp_task demo_voice_state [demo_busy_guild]) = Some TypeError
   \<and> user_levels (out_state (voice_exp_task demo_voice_state [demo_busy_guild])) (100, 2) = Some demo_row
   \<and> user_levels (out_state (voice_exp_task demo_voice_state [demo_busy_guild])) (100, 3) = Some demo_row"
proof -
  have m: "scaled_exp 5 (get_multiplier demo_config demo_member) = Inr 5"
    "scaled_exp 5 (get_multiplier demo_config demo_listener) = Inr 5"
    by code_simp+
  have a: "active_members demo_busy_channel = [demo_member, demo_listener]"
    by (simp add: active_members_def demo_busy_channel_def demo_member_def demo_listener_def)
  have c: "config demo_voice_state = demo_config" "db_ready demo_voice_state"
    by (simp_all add: demo_voice_state_def demo_state_def)
  have b: "cfg_get (blacklisted_channels demo_config) [] = [7]"
    "cfg_get (exp_per_voice_minute demo_config) 0 = 5"
    by (simp_all add: demo_config_def cfg_get_def)
  have r: "out_raised (voice_exp_task demo_voice_state [demo_busy_guild]) = Some TypeError"
    by (simp add: voice_exp_task_def c b demo_busy_guild_def a m call_from_voice)
       (simp add: demo_busy_channel_def)
  show ?thesis
    by (simp add: a r voice_exp_task_state) (simp add: demo_voice_state_def)
qed

theorem set_activity_one_omitted_witness:
  "out_state (set_activity demo_voice_state demo_interaction demo_member (Some 5) None) = demo_voice_state
   \<and> out_raised (set_activity demo_voice_state demo_interaction demo_member (Some 5) None) = Some TypeError"
  using set_activity_one_omitted [of "Some 5" None demo_voice_state demo_interaction demo_member]
  by (simp add: set_activity_def py_lt_zero_def raises_def is_admin_def demo_interaction_def
        demo_admin_def demo_voice_state_def demo_state_def)

text \<open>
  Claim C9. The role-multiplier command stores the bonus under the string form of the role
  id, while \<open>get_multiplier\<close> looks the integer role id up. A member holding role 42,
  configured with bonus 0.5, still has multiplier 1 and gains 10 points (not 15) for a
  rewarded message when \<open>exp_per_message\<close> is 10.
\<close>

theorem role_multiplier_never_applied:
  "role_multipliers (config demo_multiplier_state) = Some [(KStr ''42'', 1 / 2)]
   \<and> 42 \<in> set (m_roles demo_member)
   \<and> get_multiplier (config demo_multiplier_state) demo_member = 1
   \<and> user_levels (out_state (on_message demo_multiplier_state demo_message 0)) (100, 2)
       = Some \<lparr>exp_pts = 10, level = 0, total_messages = 1, voice_time = 0, welcome_count = 0\<rparr>"
proof -
  have k: "py_str 42 = ''42''" by code_simp
  have cfg: "config demo_multiplier_state
             = demo_config\<lparr>role_multipliers := Some [(KStr ''42'', 1 / 2)]\<rparr>"
    by (simp add: demo_multiplier_state_def role_multiplier_set_def guarded_def is_admin_def
          demo_interaction_def demo_admin_def demo_state_def respond_def set_cfg_def k Let_def)
       (simp add: demo_config_def cfg_get_def)
  have st: "demo_multiplier_state = demo_state\<lparr>config := demo_config\<lparr>role_multipliers := Some [(KStr ''42'', 1 / 2)]\<rparr>\<rparr>"
    by (simp add: demo_multiplier_state_def role_multiplier_set_def guarded_def is_admin_def
          demo_interaction_def demo_admin_def demo_state_def respond_def set_cfg_def k Let_def)
       (simp add: demo_config_def cfg_get_def)
  have one: "fl_add 1 (fl_add 0 0) = 1" by code_simp
  have gm: "get_multiplier (config demo_multiplier_state) demo_member = 1"
    by (simp add: cfg get_multiplier_def demo_member_def cfg_get_def one)
  have se: "scaled_exp 10 1 = Inr 10" by code_simp
  have cl: "calculate_level 10 = Inr 0" by (simp add: calculate_level_def)
  show ?thesis
    apply (simp add: cfg gm)
    apply (simp add: demo_member_def)
    apply (simp add: on_message_def st demo_message_def demo_member_def demo_state_def
        in_cooldown_def get_multiplier_def cfg_get_def one se update_user_exp_def get_user_data_def
        new_row_def cl sql_update_def get_update_sql_def Let_def demo_config_def
        bind_params_def sqlite_int_def)
    done
qed

lemma rcs_same: "user_levels st' = user_levels st \<Longrightarrow> rows_changed_sat P st st'"
  by (simp add: rows_changed_sat_def)

lemma rcs_trans:
  "rows_changed_sat P a b \<Longrightarrow> rows_changed_sat P b c \<Longrightarrow> rows_changed_sat P a c"
  unfolding rows_changed_sat_def by metis

lemma written_ok_new_row: "written_ok cfg new_row"
  by (simp add: written_ok_def new_row_def calculate_level_def)

lemma rcs_get_user_data:
  "P new_row \<Longrightarrow> rows_changed_sat P st (fst (get_user_data st g u))"
  by (auto simp: rows_changed_sat_def get_user_data_def split: option.splits if_splits)

lemma rcs_sql_update:
  "(\<And>r. P (f r)) \<Longrightarrow> rows_changed_sat P st (sql_update st k f)"
  by (auto simp: rows_changed_sat_def sql_update_def split: option.splits if_splits)

lemma written_ok_update:
  "calculate_level e = Inr l \<Longrightarrow> 0 \<le> e \<Longrightarrow> written_ok cfg (get_update_sql g e l r)"
  by (simp add: written_ok_def get_update_sql_def)

lemma rcs_update_user_exp:
  "rows_changed_sat (written_ok cfg) st (res_state (update_user_exp st u gain g))"
proof (cases "db_ready st")
  case False
  then show ?thesis by (simp add: update_user_exp_def rcs_same)
next
  case True
  obtain st1 ud where gd: "get_user_data st (m_guild u) (m_id u) = (st1, ud)"
    by (cases "get_user_data st (m_guild u) (m_id u)")
  have s1: "rows_changed_sat (written_ok cfg) st st1"
    using rcs_get_user_data [of "written_ok cfg" st "m_guild u" "m_id u"] gd
    by (simp add: written_ok_new_row)
  show ?thesis
  proof (cases "calculate_level (max 0 (exp_pts ud + gain))")
    case (Inl e)
    then show ?thesis using True gd s1 by (simp add: update_user_exp_def)
  next
    case (Inr l)
    have "rows_changed_sat (written_ok cfg) st1
            (sql_update st1 (m_guild u, m_id u) (get_update_sql g (max 0 (exp_pts ud + gain)) l))"
      by (rule rcs_sql_update) (simp add: written_ok_update Inr)
    with s1 have "rows_changed_sat (written_ok cfg) st
            (sql_update st1 (m_guild u, m_id u) (get_update_sql g (max 0 (exp_pts ud + gain)) l))"
      by (rule rcs_trans)
    then show ?thesis using True gd Inr s1 by (simp add: update_user_exp_def Let_def)
  qed
qed

lemma rcs_on_message:
  "rows_changed_sat (written_ok cfg) st (out_state (on_message st msg now))"
  using rcs_update_user_exp [of cfg st]
  by (auto simp: on_message_def silent_def raises_def rcs_same Let_def rows_changed_sat_def
      split: sum.splits bool.splits)

lemma rcs_add_exp:
  "rows_changed_sat (written_ok cfg) st (out_state (add_exp st i u n))"
  using rcs_update_user_exp [of cfg st u n MESSAGE]
  by (simp add: add_exp_def respond_def rcs_same Let_def)

lemma rcs_remove_exp:
  "rows_changed_sat (written_ok cfg) st (out_state (remove_exp st i u n))"
proof -
  obtain st1 ud where gd: "get_user_data st (i_guild i) (m_id u) = (st1, ud)"
    by (cases "get_user_data st (i_guild i) (m_id u)")
  have s1: "rows_changed_sat (written_ok cfg) st st1"
    using rcs_get_user_data [of "written_ok cfg" st "i_guild i" "m_id u"] gd
    by (simp add: written_ok_new_row)
  have s2: "rows_changed_sat (written_ok cfg) st (res_state (update_user_exp st1 u (- n) MESSAGE))"
    using s1 rcs_update_user_exp [of cfg st1 u "- n" MESSAGE] by (rule rcs_trans)
  show ?thesis
    using s1 s2 by (simp add: remove_exp_def respond_def rcs_same gd Let_def split: prod.splits)
qed

lemma rcs_set_exp:
  "rows_changed_sat (written_ok cfg) st (out_state (set_exp st i u n))"
proof -
  obtain st1 ud where gd: "get_user_data st (i_guild i) (m_id u) = (st1, ud)"
    by (cases "get_user_data st (i_guild i) (m_id u)")
  have s1: "rows_changed_sat (written_ok cfg) st st1"
    using rcs_get_user_data [of "written_ok cfg" st "i_guild i" "m_id u"] gd
    by (simp add: written_ok_new_row)
  have s2: "rows_changed_sat (written_ok cfg) st
              (sql_update st1 (i_guild i, m_id u) (\<lambda>r. r\<lparr>exp_pts := n, level := l\<rparr>))"
    if "calculate_level n = Inr l" "0 \<le> n" for l
    using s1 by (rule rcs_trans) (rule rcs_sql_update, simp add: written_ok_def that)
  show ?thesis
    using s1 s2 by (auto simp: set_exp_def respond_def rcs_same gd split: sum.splits)
qed

lemma user_levels_set_cfg [simp]: "user_levels (set_cfg st f) = user_levels st"
  by (simp add: set_cfg_def)

lemma out_state_respond [simp]: "out_state (respond st r) = st"
  by (simp add: respond_def)

lemma out_state_raises [simp]: "out_state (raises st e) = st"
  by (simp add: raises_def)

lemma out_state_silent [simp]: "out_state (silent st) = st"
  by (simp add: silent_def)

lemma out_state_guarded:
  "out_state (guarded st i body) = (if is_admin (config st) (i_user i) \<and> db_ready st
                                     then out_state body else st)"
  by (simp add: guarded_def)

lemma config_get_user_data [simp]: "config (fst (get_user_data st g u)) = config st"
  by (simp add: get_user_data_def split: option.splits)

lemma activity_nonneg:
  assumes "calculate_exp_from_activity cfg m t = Inr e" "0 \<le> m" "0 \<le> t" "nonneg_rates cfg"
  shows "0 \<le> e"
  using assms
  by (auto simp: calculate_exp_from_activity_def cfg_item_def nonneg_rates_def cfg_get_def
      split: option.splits)

lemma rcs_set_activity_body:
  assumes "0 \<le> m" "0 \<le> t"
  shows "rows_changed_sat (written_ok (config st)) st
           (out_state (set_activity_body st i u (Some m) (Some t)))"
proof -
  obtain st1 ud where gd: "get_user_data st (i_guild i) (m_id u) = (st1, ud)"
    by (cases "get_user_data st (i_guild i) (m_id u)")
  have c1: "config st1 = config st" using config_get_user_data [of st "i_guild i" "m_id u"] gd by simp
  have s1: "rows_changed_sat (written_ok (config st)) st st1"
    using rcs_get_user_data [of "written_ok (config st)" st "i_guild i" "m_id u"] gd
    by (simp add: written_ok_new_row)
  have s2: "rows_changed_sat (written_ok (config st)) st
              (sql_update st1 (i_guild i, m_id u)
                 (\<lambda>r. r\<lparr>exp_pts := e, level := l, total_messages := m, voice_time := t\<rparr>)
               \<lparr>user_rewards := rw\<rparr>)"
    if "calculate_exp_from_activity (config st) m t = Inr e" "calculate_level e = Inr l" for e l rw
  proof -
    have "rows_changed_sat (written_ok (config st)) st1
              (sql_update st1 (i_guild i, m_id u)
                 (\<lambda>r. r\<lparr>exp_pts := e, level := l, total_messages := m, voice_time := t\<rparr>))"
      by (rule rcs_sql_update)
         (simp add: written_ok_def that activity_nonneg [OF that(1) assms])
    with s1 have "rows_changed_sat (written_ok (config st)) st
              (sql_update st1 (i_guild i, m_id u)
                 (\<lambda>r. r\<lparr>exp_pts := e, level := l, total_messages := m, voice_time := t\<rparr>))"
      by (rule rcs_trans)
    then show ?thesis by (simp add: rows_changed_sat_def)
  qed
  show ?thesis
    using s1 s2
    by (auto simp: set_activity_body_def gd c1 respond_def Let_def split: sum.splits)
qed

lemma rcs_set_activity:
  "rows_changed_sat (written_ok (config st)) st (out_state (set_activity st i u m t))"
proof (cases m)
  case None
  then show ?thesis
    by (simp add: set_activity_def py_lt_zero_def respond_def raises_def rcs_same)
next
  case (Some mv)
  note m = this
  show ?thesis
  proof (cases t)
    case None
    then show ?thesis using m
      by (simp add: set_activity_def py_lt_zero_def respond_def raises_def rcs_same
          split: bool.splits)
  next
    case (Some tv)
    show ?thesis
      using rcs_set_activity_body [of mv tv st i u]
      by (auto simp: set_activity_def py_lt_zero_def rcs_same m Some split: bool.splits)
  qed
qed

lemma rcs_display_level_info:
  "rows_changed_sat (written_ok cfg) st (out_state (display_level_info st i u))"
proof -
  define target where "target = (case u of None \<Rightarrow> i_user i | Some x \<Rightarrow> x)"
  obtain st1 ud where gd: "get_user_data st (i_guild i) (m_id target) = (st1, ud)"
    by (cases "get_user_data st (i_guild i) (m_id target)")
  have s1: "rows_changed_sat (written_ok cfg) st st1"
    using rcs_get_user_data [of "written_ok cfg" st "i_guild i" "m_id target"] gd
    by (simp add: written_ok_new_row)
  show ?thesis
    using s1 gd
    by (simp add: display_level_info_def rcs_same Let_def target_def [symmetric]
        split: sum.splits)
qed

lemma rcs_level_debug:
  "rows_changed_sat (written_ok cfg) st (out_state (level_debug st i u))"
proof -
  have "rows_changed_sat (written_ok cfg) st (fst (get_user_data st g x))" for g x
    by (rule rcs_get_user_data) (rule written_ok_new_row)
  then show ?thesis
    by (auto simp: level_debug_def respond_def rcs_same split: option.splits)
qed

lemma config_command_rows:
  "user_levels (out_state (display_leaderboard st i p)) = user_levels st"
  "user_levels (out_state (toggle_remove_previous st i)) = user_levels st"
  "user_levels (out_state (blacklist_list_channels st i)) = user_levels st"
  "user_levels (out_state (blacklist_add_channel st i c)) = user_levels st"
  "user_levels (out_state (blacklist_remove_channel st i c)) = user_levels st"
  "user_levels (out_state (show_xp_settings st i)) = user_levels st"
  "user_levels (out_state (role_multiplier_set st i r q)) = user_levels st"
  "user_levels (out_state (role_multiplier_list st i)) = user_levels st"
  "user_levels (out_state (set_level_reward st i n r)) = user_levels st"
  "user_levels (out_state (remove_level_reward st i n)) = user_levels st"
  "user_levels (out_state (list_level_rewards st i)) = user_levels st"
  "user_levels (out_state (set_rewards_message st i n ms)) = user_levels st"
  "user_levels (out_state (list_rewards_messages st i)) = user_levels st"
  "user_levels (out_state (set_rewards_channel st i co)) = user_levels st"
  "user_levels (out_state (add_admin_role st i r)) = user_levels st"
  "user_levels (out_state (remove_admin_role st i r)) = user_levels st"
  "user_levels (out_state (list_admin_roles st i)) = user_levels st"
  by (simp_all add: display_leaderboard_def toggle_remove_previous_def blacklist_list_channels_def
      blacklist_add_channel_def blacklist_remove_channel_def show_xp_settings_def
      role_multiplier_set_def role_multiplier_list_def set_level_reward_def
      remove_level_reward_def list_level_rewards_def set_rewards_message_def
      del_rewards_message_def list_rewards_messages_def set_rewards_channel_def
      add_admin_role_def remove_admin_role_def list_admin_roles_def
      out_state_guarded Let_def split: option.splits)

lemma xp_settings_rows:
  "user_levels (out_state (set_xp_settings st i a b c)) = user_levels st"
  by (simp add: set_xp_settings_def xp_set_voice_def xp_set_cooldown_def out_state_guarded
      split: option.splits)

lemma rcs_run_command:
  "rows_changed_sat (written_ok (config st)) st (out_state (run_command st i c))"
  by (cases c)
     (simp_all add: rcs_display_level_info rcs_add_exp rcs_remove_exp rcs_set_exp rcs_set_activity
        rcs_level_debug rcs_same config_command_rows xp_settings_rows)

lemma rcs_step:
  "rows_changed_sat (written_ok (config st)) st (out_state (step st ev))"
  by (cases ev) (simp_all add: rcs_on_message rcs_run_command rcs_same voice_exp_task_state)

lemma level_of_written:
  assumes "calculate_level e = Inr l" "e < 75 * 2 ^ 46"
  shows "l = (if 75 \<le> e then \<lfloor>sqrt (real_of_int e / 75)\<rfloor> else 0)"
proof (cases "75 \<le> e")
  case True
  then have "calculate_level e = Inr (isqrt (e div 75))"
    using assms(2) by (rule calculate_level_exact)
  then have "l = isqrt (e div 75)" using assms(1) by simp
  then show ?thesis using True isqrt_floor_sqrt [of e] by simp
next
  case False
  then show ?thesis using assms(1) by (simp add: calculate_level_def)
qed

text \<open>
  Below \<open>75 * 2^46\<close> points the double-precision formula is exact: whenever an event (a
  message, a voice tick or any command) creates or changes a stored row with fewer points
  than that, the row's level equals \<open>floor (sqrt (points / 75))\<close> when points are at least
  75, and 0 otherwise.
\<close>

theorem points_mutation_sets_level:
  assumes "user_levels (out_state (step st ev)) k = Some r'"
    and "user_levels st k \<noteq> Some r'"
    and "exp_pts r' < 75 * 2 ^ 46"
  shows "level r' = (if 75 \<le> exp_pts r' then \<lfloor>sqrt (real_of_int (exp_pts r') / 75)\<rfloor> else 0)"
proof -
  have "written_ok (config st) r'"
    using rcs_step [of st ev] assms(1,2) unfolding rows_changed_sat_def by blast
  then have "calculate_level (exp_pts r') = Inr (level r')" by (simp add: written_ok_def)
  then show ?thesis using assms(3) by (rule level_of_written)
qed

lemma demo_admin_ok: "is_admin (config demo_state) (i_user demo_interaction)"
  by (simp add: is_admin_def demo_interaction_def demo_admin_def)

lemma set_exp_demo:
  assumes "calculate_level n = Inr l" "0 \<le> n" "bind_params [n, l]"
  shows "user_levels (out_state (step demo_state (Command demo_interaction (SetExp demo_member n))))
           (100, 2)
         = Some \<lparr>exp_pts = n, level = l, total_messages = 0, voice_time = 0, welcome_count = 0\<rparr>"
  using assms demo_admin_ok
  by (simp add: set_exp_def get_user_data_def sql_update_def)
     (simp add: demo_state_def demo_interaction_def demo_member_def new_row_def)

theorem points_mutation_sets_level_witness:
  "user_levels (out_state (step demo_state (Command demo_interaction (SetExp demo_member 300))))
     (100, 2)
   = Some \<lparr>exp_pts = 300, level = 2, total_messages = 0, voice_time = 0, welcome_count = 0\<rparr>
   \<and> user_levels demo_state (100, 2) = None
   \<and> (300 :: int) < 75 * 2 ^ 46
   \<and> (2 :: int) = \<lfloor>sqrt (real_of_int 300 / 75)\<rfloor>"
proof -
  have cl: "calculate_level 300 = Inr 2" by code_simp
  have a: "user_levels (out_state (step demo_state (Command demo_interaction (SetExp demo_member 300))))
             (100, 2)
           = Some \<lparr>exp_pts = 300, level = 2, total_messages = 0, voice_time = 0, welcome_count = 0\<rparr>"
    using set_exp_demo [OF cl] by (simp add: bind_params_def sqlite_int_def)
  have b: "user_levels demo_state (100, 2) = None" by (simp add: demo_state_def)
  have c: "(300 :: int) < 75 * 2 ^ 46" by simp
  from points_mutation_sets_level [OF a _ ] b c
  have "(2 :: int) = \<lfloor>sqrt (real_of_int 300 / 75)\<rfloor>" by simp
  with a b c show ?thesis by blast
qed

lemma level_roundtrip_small:
  assumes "0 \<le> n" "n < 2 ^ 23"
  shows "calculate_level (calculate_exp_for_level n) = Inr n"
proof (cases "n = 0")
  case True
  then show ?thesis by (simp add: calculate_exp_for_level_def calculate_level_def)
next
  case False
  then have n1: "1 \<le> n" using assms(1) by simp
  have "1 * 1 \<le> n * n" using n1 by (intro mult_mono) auto
  then have lo: "75 \<le> 75 * n * n" by simp
  have "n * n < 2 ^ 23 * 2 ^ 23"
    using assms by (intro mult_strict_mono) auto
  then have hi: "75 * n * n < 75 * 2 ^ 46" by simp
  have "(75 * n * n) div 75 = n * n" by simp
  moreover have "isqrt (n * n) = n"
    using assms(1) by (intro isqrt_unique) (auto simp: algebra_simps)
  ultimately show ?thesis
    using calculate_level_exact [OF lo hi] by (simp add: calculate_exp_for_level_def)
qed

text \<open>
  Claim C1. The set command with 5277657071616074 points stores level 8388609, although
  \<open>floor (sqrt (points / 75))\<close> is 8388608 and level 8388609 needs 5277657071616075 points
  by \<open>calculate_exp_for_level\<close>: the quotient and its square root are rounded to doubles, and
  the rounded root reaches the next integer.
\<close>

theorem set_exp_level_off_by_one:
  "user_levels (out_state (step demo_state
      (Command demo_interaction (SetExp demo_member 5277657071616074)))) (100, 2)
   = Some \<lparr>exp_pts = 5277657071616074, level = 8388609, total_messages = 0, voice_time = 0,
           welcome_count = 0\<rparr>
   \<and> \<lfloor>sqrt (real_of_int 5277657071616074 / 75)\<rfloor> = 8388608
   \<and> calculate_exp_for_level 8388609 = 5277657071616075"
proof -
  have cl: "calculate_level 5277657071616074 = Inr 8388609" by code_simp
  have sq: "isqrt (5277657071616074 div 75) = 8388608" by code_simp
  have bp: "bind_params [5277657071616074, 8388609]" by (simp add: bind_params_def sqlite_int_def)
  have "\<lfloor>sqrt (real_of_int 5277657071616074 / 75)\<rfloor> = isqrt (5277657071616074 div 75)"
    by (rule isqrt_floor_sqrt [symmetric]) simp
  then show ?thesis
    using set_exp_demo [OF cl _ bp] sq by (simp add: calculate_exp_for_level_def)
qed


lemma out_reply_simps [simp]:
  "out_reply (respond st r) = Some r" "out_reply (raises st e) = None" "out_reply (silent st) = None"
  "out_raised (respond st r) = None" "out_raised (raises st e) = Some e" "out_raised (silent st) = None"
  by (simp_all add: respond_def raises_def silent_def)

lemma config_sql_update [simp]: "config (sql_update st k f) = config st"
  by (simp add: sql_update_def split: option.splits)

lemma config_update_user_exp [simp]: "config (res_state (update_user_exp st u n g)) = config st"
proof -
  have "config st1 = config st" if "get_user_data st (m_guild u) (m_id u) = (st1, ud)" for st1 ud
    using config_get_user_data [of st "m_guild u" "m_id u"] that by simp
  then show ?thesis
    by (auto simp: update_user_exp_def Let_def split: prod.splits sum.splits)
qed

lemma config_on_message [simp]: "config (out_state (on_message st msg now)) = config st"
  by (auto simp: on_message_def Let_def split: sum.splits bool.splits)

lemma rates_set_cfg:
  "exp_per_message (f (config st)) = exp_per_message (config st) \<Longrightarrow>
   exp_per_voice_minute (f (config st)) = exp_per_voice_minute (config st) \<Longrightarrow>
   nonneg_rates (config (set_cfg st f)) = nonneg_rates (config st)"
  by (simp add: set_cfg_def nonneg_rates_def)

lemma rates_xp_settings:
  "nonneg_rates (config st) \<Longrightarrow> nonneg_rates (config (out_state (set_xp_settings st i a b c)))"
  by (auto simp: set_xp_settings_def xp_set_voice_def xp_set_cooldown_def out_state_guarded
      set_cfg_def nonneg_rates_def cfg_get_def split: option.splits)

lemma config_exp_commands:
  "config (out_state (display_level_info st i uo)) = config st"
  "config (out_state (display_leaderboard st i p)) = config st"
  "config (out_state (add_exp st i u n)) = config st"
  "config (out_state (remove_exp st i u n)) = config st"
  "config (out_state (set_exp st i u n)) = config st"
  "config (out_state (level_debug st i uo)) = config st"
proof -
  have g: "config st1 = config st" if "get_user_data st gg uu = (st1, ud)" for st1 ud gg uu
    using config_get_user_data [of st gg uu] that by simp
  show "config (out_state (display_level_info st i uo)) = config st"
    using g by (auto simp: display_level_info_def Let_def split: prod.splits sum.splits)
  show "config (out_state (display_leaderboard st i p)) = config st"
    by (simp add: display_leaderboard_def)
  show "config (out_state (add_exp st i u n)) = config st"
    by (simp add: add_exp_def Let_def)
  show "config (out_state (remove_exp st i u n)) = config st"
    using g by (auto simp: remove_exp_def Let_def split: prod.splits)
  show "config (out_state (set_exp st i u n)) = config st"
    using g by (auto simp: set_exp_def Let_def split: prod.splits sum.splits)
  show "config (out_state (level_debug st i uo)) = config st"
    by (simp add: level_debug_def split: option.splits)
qed

lemma config_set_activity: "config (out_state (set_activity st i u m t)) = config st"
proof -
  have g: "config st1 = config st" if "get_user_data st gg uu = (st1, ud)" for st1 ud gg uu
    using config_get_user_data [of st gg uu] that by simp
  have "config (out_state (set_activity_body st i u m t)) = config st"
    using g by (auto simp: set_activity_body_def Let_def split: prod.splits sum.splits)
  then show ?thesis
    by (auto simp: set_activity_def split: sum.splits bool.splits)
qed

lemma rates_run_command:
  "nonneg_rates (config st) \<Longrightarrow> nonneg_rates (config (out_state (run_command st i c)))"
proof (cases c)
  case (XpSettingsSet a b d)
  assume "nonneg_rates (config st)"
  then show ?thesis using XpSettingsSet by (simp add: rates_xp_settings)
qed (simp_all add: config_exp_commands config_set_activity
      toggle_remove_previous_def blacklist_list_channels_def
      blacklist_add_channel_def blacklist_remove_channel_def show_xp_settings_def
      role_multiplier_set_def role_multiplier_list_def set_level_reward_def
      remove_level_reward_def list_level_rewards_def set_rewards_message_def
      del_rewards_message_def list_rewards_messages_def set_rewards_channel_def
      add_admin_role_def remove_admin_role_def list_admin_roles_def
      out_state_guarded Let_def set_cfg_def nonneg_rates_def split: option.splits)

lemma rates_step:
  "nonneg_rates (config st) \<Longrightarrow> nonneg_rates (config (out_state (step st ev)))"
  by (cases ev) (simp_all add: rates_run_command voice_exp_task_state)

text \<open>
  Claim C8. An admin removal whose amount exceeds the points of an existing row is answered
  with a failure and leaves the whole state unchanged; for a user without a row the request
  is also answered with a failure, and the only possible write is the creation of the row
  with zero points. As long as the configured rates per message and per voice minute are not
  negative, no event leaves negative points in a row it creates or changes, and the rates
  stay non-negative.
\<close>

theorem remove_exp_rejects_and_points_nonneg:
  "(user_levels st (i_guild i, m_id u) = Some r \<and> exp_pts r < montant \<longrightarrow>
      out_state (remove_exp st i u montant) = st
      \<and> (\<exists>f. out_reply (remove_exp st i u montant) = Some (Failure f)))
   \<and> (user_levels st (i_guild i, m_id u) = None \<and> 0 < montant \<longrightarrow>
      (\<exists>f. out_reply (remove_exp st i u montant) = Some (Failure f))
      \<and> (out_state (remove_exp st i u montant) = st
         \<or> out_state (remove_exp st i u montant)
            = st\<lparr>user_levels := (user_levels st)((i_guild i, m_id u) \<mapsto> new_row)\<rparr>))
   \<and> (nonneg_rates (config st) \<and> user_levels (out_state (step st ev)) k = Some r'
        \<and> user_levels st k \<noteq> Some r' \<longrightarrow> 0 \<le> exp_pts r')
   \<and> (nonneg_rates (config st) \<longrightarrow> nonneg_rates (config (out_state (step st ev))))"
proof (intro conjI impI)
  assume a: "user_levels st (i_guild i, m_id u) = Some r \<and> exp_pts r < montant"
  then show "out_state (remove_exp st i u montant) = st"
    by (simp add: remove_exp_def get_user_data_def)
  from a show "\<exists>f. out_reply (remove_exp st i u montant) = Some (Failure f)"
    by (simp add: remove_exp_def get_user_data_def respond_def)
next
  assume a: "user_levels st (i_guild i, m_id u) = None \<and> 0 < montant"
  then show "\<exists>f. out_reply (remove_exp st i u montant) = Some (Failure f)"
    by (simp add: remove_exp_def get_user_data_def respond_def new_row_def)
  from a show "out_state (remove_exp st i u montant) = st
         \<or> out_state (remove_exp st i u montant)
            = st\<lparr>user_levels := (user_levels st)((i_guild i, m_id u) \<mapsto> new_row)\<rparr>"
    by (simp add: remove_exp_def get_user_data_def new_row_def)
next
  assume a: "nonneg_rates (config st) \<and> user_levels (out_state (step st ev)) k = Some r'
        \<and> user_levels st k \<noteq> Some r'"
  then have "written_ok (config st) r'"
    using rcs_step [of st ev] unfolding rows_changed_sat_def by blast
  then show "0 \<le> exp_pts r'" using a by (simp add: written_ok_def)
next
  assume "nonneg_rates (config st)"
  then show "nonneg_rates (config (out_state (step st ev)))" by (rule rates_step)
qed

theorem remove_exp_rejects_and_points_nonneg_witness:
  "user_levels demo_voice_state (i_guild demo_interaction, m_id demo_member) = Some demo_row
   \<and> exp_pts demo_row < 50
   \<and> out_state (remove_exp demo_voice_state demo_interaction demo_member 50) = demo_voice_state
   \<and> nonneg_rates (config demo_voice_state)
   \<and> nonneg_rates (config (out_state (step demo_voice_state
         (Command demo_interaction (RemoveExp demo_member 50)))))"
proof -
  have a: "user_levels demo_voice_state (i_guild demo_interaction, m_id demo_member) = Some demo_row"
    by (simp add: demo_voice_state_def demo_interaction_def demo_member_def)
  have b: "exp_pts demo_row < 50" by (simp add: demo_row_def)
  have c: "nonneg_rates (config demo_voice_state)"
    by (simp add: nonneg_rates_def demo_voice_state_def demo_state_def demo_config_def cfg_get_def)
  show ?thesis
    using remove_exp_rejects_and_points_nonneg
      [of demo_voice_state demo_interaction demo_member demo_row 50
          "Command demo_interaction (RemoveExp demo_member 50)" "(100, 2)" demo_row] a b c
    by blast
qed

theorem remove_exp_counterexample:
  "user_levels demo_state (100, 2) = None
   \<and> out_reply (remove_exp demo_state demo_interaction demo_member 5) = Some (Failure NotEnoughExp)
   \<and> user_levels (out_state (remove_exp demo_state demo_interaction demo_member 5)) (100, 2)
       = Some new_row"
  using demo_admin_ok
  by (simp add: remove_exp_def get_user_data_def respond_def)
     (simp add: demo_state_def demo_interaction_def demo_member_def new_row_def)

lemma guarded_down:
  "\<not> db_ready st \<Longrightarrow> is_admin (config st) (i_user i) \<Longrightarrow>
     guarded st i body = respond st (Failure DbUnavailable)"
  by (simp add: guarded_def)

lemma guarded_denied:
  "\<not> is_admin (config st) (i_user i) \<Longrightarrow> guarded st i body = respond st (Failure NoPermission)"
  by (simp add: guarded_def)

lemmas guarded_commands =
  blacklist_list_channels_def blacklist_add_channel_def blacklist_remove_channel_def
  show_xp_settings_def set_xp_settings_def role_multiplier_set_def role_multiplier_list_def
  set_level_reward_def remove_level_reward_def list_level_rewards_def set_rewards_message_def
  list_rewards_messages_def set_rewards_channel_def add_admin_role_def remove_admin_role_def
  list_admin_roles_def

text \<open>
  Claim C7. While the store is unavailable: the public display commands answer with the long
  database-unavailable failure; every admin command other than \<open>toggle-remove-previous\<close> and
  \<open>level-debug\<close>, run by an admin, answers with the short database-unavailable failure; an
  admin command run by a non-admin answers with the permission failure. In all these cases
  the state is returned unchanged (the reply is built by \<open>respond st\<close>). \<open>level-debug\<close>,
  messages and the voice tick leave the state unchanged as well, so no points accrue.
\<close>

theorem store_unavailable:
  assumes "\<not> db_ready st"
  shows "(public_command c \<longrightarrow> run_command st i c = respond st (Failure DbUnavailableLong))
       \<and> (\<not> public_command c \<and> \<not> unguarded_command c \<and> is_admin (config st) (i_user i) \<longrightarrow>
            run_command st i c = respond st (Failure DbUnavailable))
       \<and> (\<not> public_command c \<and> \<not> is_admin (config st) (i_user i) \<longrightarrow>
            run_command st i c = respond st (Failure NoPermission))
       \<and> out_state (run_command st i (LevelDebug u)) = st
       \<and> out_state (on_message st msg now) = st
       \<and> out_state (voice_exp_task st guilds) = st"
proof (intro conjI impI)
  assume "public_command c"
  then show "run_command st i c = respond st (Failure DbUnavailableLong)"
    using assms by (cases c) (simp_all add: display_level_info_def display_leaderboard_def)
next
  assume a: "\<not> public_command c \<and> \<not> unguarded_command c \<and> is_admin (config st) (i_user i)"
  then show "run_command st i c = respond st (Failure DbUnavailable)"
    using assms
    by (cases c)
       (simp_all add: guarded_commands guarded_down add_exp_def remove_exp_def set_exp_def
          set_activity_def)
next
  assume a: "\<not> public_command c \<and> \<not> is_admin (config st) (i_user i)"
  then show "run_command st i c = respond st (Failure NoPermission)"
    by (cases c)
       (simp_all add: guarded_commands guarded_denied add_exp_def remove_exp_def set_exp_def
          set_activity_def toggle_remove_previous_def level_debug_def)
next
  show "out_state (run_command st i (LevelDebug u)) = st"
    using assms by (simp add: level_debug_def get_user_data_def split: option.splits)
next
  show "out_state (on_message st msg now) = st"
    using assms by (simp add: on_message_def)
next
  show "out_state (voice_exp_task st guilds) = st" by (rule voice_exp_task_state)
qed

theorem store_unavailable_witness:
  "\<not> db_ready demo_down_state
   \<and> run_command demo_down_state demo_interaction (LevelInfo None)
       = respond demo_down_state (Failure DbUnavailableLong)
   \<and> run_command demo_down_state demo_interaction (AddExp demo_member 5)
       = respond demo_down_state (Failure DbUnavailable)
   \<and> run_command demo_down_state demo_visitor (AddExp demo_member 5)
       = respond demo_down_state (Failure NoPermission)
   \<and> out_state (on_message demo_down_state demo_message 0) = demo_down_state"
proof -
  have d: "\<not> db_ready demo_down_state" by (simp add: demo_down_state_def)
  have ad: "is_admin (config demo_down_state) (i_user demo_interaction)"
    by (simp add: is_admin_def demo_interaction_def demo_admin_def)
  have nad: "\<not> is_admin (config demo_down_state) (i_user demo_visitor)"
    by (simp add: is_admin_def demo_visitor_def demo_member_def demo_down_state_def demo_state_def
        demo_config_def cfg_get_def)
  show ?thesis
    using store_unavailable [OF d, of "LevelInfo None" demo_interaction None demo_message 0 "[]"]
      store_unavailable [OF d, of "AddExp demo_member 5" demo_interaction None demo_message 0 "[]"]
      store_unavailable [OF d, of "AddExp demo_member 5" demo_visitor None demo_message 0 "[]"]
      d ad nad
    by simp
qed

theorem store_unavailable_counterexample:
  "\<not> db_ready demo_down_state
   \<and> run_command demo_down_state demo_interaction ToggleRemovePrevious
       = respond (demo_down_state\<lparr>config := demo_config\<lparr>remove_previous_rewards := Some False\<rparr>\<rparr>)
           Success
   \<and> remove_previous_rewards (config demo_down_state) = None
   \<and> run_command demo_down_state demo_interaction (LevelDebug None) = respond demo_down_state Embed
   \<and> run_command demo_down_state demo_visitor (AddExp demo_member 5)
       = respond demo_down_state (Failure NoPermission)"
  by (simp add: toggle_remove_previous_def level_debug_def add_exp_def is_admin_def
      demo_interaction_def demo_admin_def demo_visitor_def demo_member_def)
     (simp add: demo_down_state_def demo_state_def demo_config_def cfg_get_def)

lemma applicable_loop_eq:
  "applicable_loop env mem rp t xs (a, d) =
     (a @ filter (\<lambda>(l, r). r \<in> set (guild_roles env) \<and> r \<notin> set (m_roles mem)
                              \<and> (\<not> rp \<or> Some r = t)) xs,
      d @ filter (\<lambda>(l, r). r \<in> set (guild_roles env) \<and> r \<in> set (m_roles mem)
                              \<and> rp \<and> Some r \<noteq> t) xs)"
proof (induction xs arbitrary: a d rp)
  case Nil
  show ?case by simp
next
  case (Cons x xs)
  obtain l r where x: "x = (l, r)" by (cases x)
  show ?case by (simp add: x Cons.IH)
qed

lemma non_applicable_loop_eq:
  "non_applicable_loop env mem xs d =
     d @ filter (\<lambda>(l, r). r \<in> set (guild_roles env) \<and> r \<in> set (m_roles mem)) xs"
proof (induction xs arbitrary: d)
  case Nil
  show ?case by simp
next
  case (Cons x xs)
  obtain l r where x: "x = (l, r)" by (cases x)
  show ?case by (simp add: x Cons.IH)
qed

lemma grant_loop_roles:
  "add_fails env = [] \<Longrightarrow>
     set (fst (grant_loop env mem xs (roles, rw))) = set roles \<union> snd ` set xs"
proof (induction xs arbitrary: roles rw)
  case Nil
  show ?case by simp
next
  case (Cons x xs)
  obtain l r where x: "x = (l, r)" by (cases x)
  have s: "safe_add_role env roles r = (True, if r \<in> set roles then roles else roles @ [r])"
    using Cons.prems by (simp add: safe_add_role_def)
  show ?case
    by (simp add: x s Cons.IH [OF Cons.prems]) auto
qed

lemma revoke_loop_roles:
  "remove_fails env = [] \<Longrightarrow>
     set (fst (revoke_loop env mem xs (roles, rw))) = set roles - snd ` set xs"
proof (induction xs arbitrary: roles rw)
  case Nil
  show ?case by simp
next
  case (Cons x xs)
  obtain l r where x: "x = (l, r)" by (cases x)
  have s: "safe_remove_role env roles r = (True, filter (\<lambda>q. q \<noteq> r) roles)"
    using Cons.prems by (simp add: safe_remove_role_def)
  show ?case
    by (simp add: x s Cons.IH [OF Cons.prems]) auto
qed

lemma topmost_loop_keep:
  "\<forall>(l, r) \<in> set xs. l \<le> hl \<Longrightarrow> topmost_loop xs hl t = t"
  by (induction xs arbitrary: hl t) auto

lemma topmost_loop_some:
  "\<exists>(l, r) \<in> set xs. hl < l \<Longrightarrow>
     \<exists>l r. (l, r) \<in> set xs \<and> topmost_loop xs hl t = Some r \<and> hl < l
            \<and> (\<forall>(l', r') \<in> set xs. l' \<le> l)"
proof (induction xs arbitrary: hl t)
  case Nil
  then show ?case by simp
next
  case (Cons x xs)
  obtain l0 r0 where x: "x = (l0, r0)" by (cases x)
  show ?case
  proof (cases "hl < l0")
    case True
    show ?thesis
    proof (cases "\<exists>(l, r) \<in> set xs. l0 < l")
      case ex: True
      from Cons.IH [OF ex, of "Some r0"] obtain l r where
        lr: "(l, r) \<in> set xs" "topmost_loop xs l0 (Some r0) = Some r" "l0 < l"
            "\<forall>(l', r') \<in> set xs. l' \<le> l" by blast
      then show ?thesis using True x by (intro exI [of _ l] exI [of _ r]) auto
    next
      case nex: False
      then have "\<forall>(l, r) \<in> set xs. l \<le> l0" by auto
      then have "topmost_loop xs l0 (Some r0) = Some r0" by (rule topmost_loop_keep)
      then show ?thesis using True x nex by (intro exI [of _ l0] exI [of _ r0]) auto
    qed
  next
    case False
    then have ex: "\<exists>(l, r) \<in> set xs. hl < l" using Cons.prems x by auto
    from Cons.IH [OF ex, of t] obtain l r where
      lr: "(l, r) \<in> set xs" "topmost_loop xs hl t = Some r" "hl < l"
          "\<forall>(l', r') \<in> set xs. l' \<le> l" by blast
    then show ?thesis using False x by (intro exI [of _ l] exI [of _ r]) auto
  qed
qed

lemma update_rewards_roles:
  assumes "db_ready st" "add_fails env = []" "remove_fails env = []"
  shows "set (snd (update_rewards st env mem lvl)) =
     (set (m_roles mem)
        \<union> snd ` {(l, r) \<in> set (applicable_roles lvl (cfg_get (level_rewards (config st)) [])).
                   r \<in> set (guild_roles env) \<and> r \<notin> set (m_roles mem)
                   \<and> (\<not> cfg_get (remove_previous_rewards (config st)) True
                       \<or> Some r = topmost_role (applicable_roles lvl (cfg_get (level_rewards (config st)) [])))})
     - (snd ` {(l, r) \<in> set (applicable_roles lvl (cfg_get (level_rewards (config st)) [])).
                   r \<in> set (guild_roles env) \<and> r \<in> set (m_roles mem)
                   \<and> cfg_get (remove_previous_rewards (config st)) True
                   \<and> Some r \<noteq> topmost_role (applicable_roles lvl (cfg_get (level_rewards (config st)) []))}
        \<union> snd ` {(l, r) \<in> set (non_applicable_roles lvl (cfg_get (level_rewards (config st)) [])).
                   r \<in> set (guild_roles env) \<and> r \<in> set (m_roles mem)})"
proof -
  define A where "A = applicable_roles lvl (cfg_get (level_rewards (config st)) [])"
  define N where "N = non_applicable_roles lvl (cfg_get (level_rewards (config st)) [])"
  define rp where "rp = cfg_get (remove_previous_rewards (config st)) True"
  define p1 where "p1 = (\<lambda>(l :: int, r). r \<in> set (guild_roles env) \<and> r \<notin> set (m_roles mem)
                              \<and> (\<not> rp \<or> Some r = topmost_role A))"
  define p2 where "p2 = (\<lambda>(l :: int, r). r \<in> set (guild_roles env) \<and> r \<in> set (m_roles mem)
                              \<and> rp \<and> Some r \<noteq> topmost_role A)"
  define p3 where "p3 = (\<lambda>(l :: int, r). r \<in> set (guild_roles env) \<and> r \<in> set (m_roles mem))"
  define adds where "adds = filter p1 A"
  define rems where "rems = filter p2 A @ filter p3 N"
  have ap: "applicable_loop env mem rp (topmost_role A) A ([], []) = (adds, filter p2 A)"
    by (simp add: applicable_loop_eq adds_def p1_def p2_def)
  have na: "non_applicable_loop env mem N (filter p2 A) = rems"
    by (simp add: non_applicable_loop_eq rems_def p3_def)
  obtain roles1 rw1 where g: "grant_loop env mem adds (m_roles mem, user_rewards st) = (roles1, rw1)"
    by (cases "grant_loop env mem adds (m_roles mem, user_rewards st)")
  obtain roles2 rw2 where r: "revoke_loop env mem rems (roles1, rw1) = (roles2, rw2)"
    by (cases "revoke_loop env mem rems (roles1, rw1)")
  have r1: "set roles1 = set (m_roles mem) \<union> snd ` set adds"
    using grant_loop_roles [OF assms(2), of mem adds "m_roles mem" "user_rewards st"] g by simp
  have r2: "set roles2 = set roles1 - snd ` set rems"
    using revoke_loop_roles [OF assms(3), of mem rems roles1 rw1] r by simp
  have "update_rewards st env mem lvl =
          (let (roles_to_add, to_remove0) = applicable_loop env mem rp (topmost_role A) A ([], []);
               roles_to_remove = non_applicable_loop env mem N to_remove0
           in if db_ready st then
                let (roles1, rewards1) = grant_loop env mem roles_to_add (m_roles mem, user_rewards st);
                    (roles2, rewards2) = revoke_loop env mem roles_to_remove (roles1, rewards1)
                in (st\<lparr>user_rewards := rewards2\<rparr>, roles2)
              else (st, m_roles mem))"
    unfolding update_rewards_def Let_def A_def N_def rp_def ..
  then have "snd (update_rewards st env mem lvl) = roles2"
    by (simp add: ap na g r assms(1))
  then have "set (snd (update_rewards st env mem lvl))
             = (set (m_roles mem) \<union> snd ` set (filter p1 A)) - snd ` set (filter p2 A @ filter p3 N)"
    by (simp add: r1 r2 adds_def rems_def)
  also have "set (filter p1 A) = {x \<in> set A. p1 x}" by simp
  also have "set (filter p2 A @ filter p3 N) = {x \<in> set A. p2 x} \<union> {x \<in> set N. p3 x}" by auto
  finally show ?thesis
    unfolding A_def [symmetric] N_def [symmetric] rp_def [symmetric]
    by (simp add: p1_def p2_def p3_def image_Un case_prod_unfold)
qed

lemma applicable_set:
  "set (applicable_roles lvl (cfg_get (level_rewards (config st)) []))
     = {(l, r) \<in> set (configured_rewards st). l \<le> lvl}"
  "set (non_applicable_roles lvl (cfg_get (level_rewards (config st)) []))
     = {(l, r) \<in> set (configured_rewards st). \<not> l \<le> lvl}"
  by (auto simp: applicable_roles_def non_applicable_roles_def configured_rewards_def)

lemma distinct_snd_eq:
  "distinct (map snd xs) \<Longrightarrow> (a, r) \<in> set xs \<Longrightarrow> (b, r) \<in> set xs \<Longrightarrow> a = b"
  by (metis distinct_map inj_on_def prod.inject snd_conv)

lemma held_after_update:
  assumes "db_ready st" "add_fails env = []" "remove_fails env = []"
    and "\<forall>(l, r) \<in> set (configured_rewards st). r \<in> set (guild_roles env)"
  shows "x \<in> set (snd (update_rewards st env mem lvl)) \<longleftrightarrow>
     (x \<in> set (m_roles mem)
        \<or> (\<exists>l. (l, x) \<in> set (configured_rewards st) \<and> l \<le> lvl
              \<and> (\<not> cfg_get (remove_previous_rewards (config st)) True
                  \<or> Some x = topmost_role (applicable_roles lvl (cfg_get (level_rewards (config st)) [])))))
     \<and> \<not> (\<exists>l. (l, x) \<in> set (configured_rewards st) \<and> l \<le> lvl \<and> x \<in> set (m_roles mem)
              \<and> cfg_get (remove_previous_rewards (config st)) True
              \<and> Some x \<noteq> topmost_role (applicable_roles lvl (cfg_get (level_rewards (config st)) [])))
     \<and> \<not> (\<exists>l. (l, x) \<in> set (configured_rewards st) \<and> \<not> l \<le> lvl \<and> x \<in> set (m_roles mem))"
  unfolding update_rewards_roles [OF assms(1-3)] applicable_set
  using assms(4) by (auto simp: image_iff)

lemma topmost_exists:
  assumes "\<forall>(l, r) \<in> set (configured_rewards st). 0 \<le> l"
    and "(l0, r0) \<in> set (configured_rewards st)" "l0 \<le> lvl"
  shows "\<exists>l r. (l, r) \<in> set (configured_rewards st) \<and> l \<le> lvl
           \<and> topmost_role (applicable_roles lvl (cfg_get (level_rewards (config st)) [])) = Some r
           \<and> (\<forall>(l', r') \<in> set (configured_rewards st). l' \<le> lvl \<longrightarrow> l' \<le> l)"
proof -
  let ?A = "applicable_roles lvl (cfg_get (level_rewards (config st)) [])"
  have mem: "(l0, r0) \<in> set ?A" using assms(2,3) by (simp add: applicable_set)
  have "0 \<le> l0" using assms(1,2) by auto
  then have "\<exists>(l, r) \<in> set ?A. - 1 < l" using mem by force
  from topmost_loop_some [OF this, of None] obtain l r where
    lr: "(l, r) \<in> set ?A" "topmost_loop ?A (- 1) None = Some r"
        "\<forall>(l', r') \<in> set ?A. l' \<le> l" by blast
  have "(l, r) \<in> set (configured_rewards st) \<and> l \<le> lvl" using lr(1) by (simp add: applicable_set)
  moreover have "\<forall>(l', r') \<in> set (configured_rewards st). l' \<le> lvl \<longrightarrow> l' \<le> l"
    using lr(3) by (auto simp: applicable_set)
  ultimately show ?thesis using lr(2) unfolding topmost_role_def by blast
qed

text \<open>
  Reconciliation with distinct roles. Assume the store is ready, every configured reward
  role exists in the guild, every role add and remove succeeds, no role is configured for
  two thresholds and no threshold is negative. After \<open>update_rewards\<close> for target level \<open>lvl\<close>: with
  remove-previous enabled and at least one threshold at most \<open>lvl\<close>, the member holds exactly
  one reward role, and its threshold is the highest one at most \<open>lvl\<close>; with remove-previous
  disabled the member holds every reward role whose threshold is at most \<open>lvl\<close>; in both
  modes the member holds no reward role whose threshold is above \<open>lvl\<close>.
\<close>

theorem update_rewards_roles_held:
  assumes ready: "db_ready st"
    and ok: "add_fails env = []" "remove_fails env = []"
    and exist: "\<forall>(l, r) \<in> set (configured_rewards st). r \<in> set (guild_roles env)"
    and inj: "distinct (map snd (configured_rewards st))"
    and nonneg: "\<forall>(l, r) \<in> set (configured_rewards st). 0 \<le> l"
  shows "(cfg_get (remove_previous_rewards (config st)) True
            \<and> (\<exists>(l, r) \<in> set (configured_rewards st). l \<le> lvl) \<longrightarrow>
          (\<exists>(l, r) \<in> set (configured_rewards st). l \<le> lvl
              \<and> (\<forall>(l', r') \<in> set (configured_rewards st). l' \<le> lvl \<longrightarrow> l' \<le> l)
              \<and> {x \<in> set (snd (update_rewards st env mem lvl)). x \<in> snd ` set (configured_rewards st)}
                  = {r}))
       \<and> (\<not> cfg_get (remove_previous_rewards (config st)) True \<longrightarrow>
          (\<forall>(l, r) \<in> set (configured_rewards st).
              l \<le> lvl \<longrightarrow> r \<in> set (snd (update_rewards st env mem lvl))))
       \<and> (\<forall>(l, r) \<in> set (configured_rewards st).
              lvl < l \<longrightarrow> r \<notin> set (snd (update_rewards st env mem lvl)))"
proof -
  let ?P = "set (configured_rewards st)"
  let ?R = "set (snd (update_rewards st env mem lvl))"
  let ?M = "set (m_roles mem)"
  let ?rp = "cfg_get (remove_previous_rewards (config st)) True"
  let ?top = "topmost_role (applicable_roles lvl (cfg_get (level_rewards (config st)) []))"
  have held: "x \<in> ?R \<longleftrightarrow>
       (x \<in> ?M \<or> (\<exists>l. (l, x) \<in> ?P \<and> l \<le> lvl \<and> (\<not> ?rp \<or> Some x = ?top)))
       \<and> \<not> (\<exists>l. (l, x) \<in> ?P \<and> l \<le> lvl \<and> x \<in> ?M \<and> ?rp \<and> Some x \<noteq> ?top)
       \<and> \<not> (\<exists>l. (l, x) \<in> ?P \<and> \<not> l \<le> lvl \<and> x \<in> ?M)" for x
    by (rule held_after_update [OF ready ok exist])
  have same: "a = b" if "(a, r) \<in> ?P" "(b, r) \<in> ?P" for a b r
    using distinct_snd_eq [OF inj that] .
  have part_a: "\<exists>(l, r) \<in> ?P. l \<le> lvl \<and> (\<forall>(l', r') \<in> ?P. l' \<le> lvl \<longrightarrow> l' \<le> l)
                  \<and> {x \<in> ?R. x \<in> snd ` ?P} = {r}"
    if rp: "?rp" and ex: "\<exists>(l, r) \<in> ?P. l \<le> lvl"
  proof -
    from ex obtain l0 r0 where "(l0, r0) \<in> ?P" "l0 \<le> lvl" by auto
    from topmost_exists [OF nonneg this] obtain lt rt where
      t: "(lt, rt) \<in> ?P" "lt \<le> lvl" "?top = Some rt"
         "\<forall>(l', r') \<in> ?P. l' \<le> lvl \<longrightarrow> l' \<le> lt" by blast
    have c1: "\<exists>l. (l, rt) \<in> ?P \<and> l \<le> lvl \<and> (\<not> ?rp \<or> Some rt = ?top)"
      using t(1,2,3) by (intro exI [of _ lt]) simp
    have c2: "\<not> (\<exists>l. (l, rt) \<in> ?P \<and> l \<le> lvl \<and> rt \<in> ?M \<and> ?rp \<and> Some rt \<noteq> ?top)"
      using t(3) by simp
    have c3: "\<not> (\<exists>l. (l, rt) \<in> ?P \<and> \<not> l \<le> lvl \<and> rt \<in> ?M)"
    proof
      assume "\<exists>l. (l, rt) \<in> ?P \<and> \<not> l \<le> lvl \<and> rt \<in> ?M"
      then obtain l where l: "(l, rt) \<in> ?P" "\<not> l \<le> lvl" by blast
      have "l = lt" using same [OF l(1) t(1)] .
      then show False using l(2) t(2) by simp
    qed
    have in_rt: "rt \<in> ?R" using held [of rt] c1 c2 c3 by blast
    have only: "x = rt" if x: "x \<in> ?R" "x \<in> snd ` ?P" for x
    proof (rule ccontr)
      assume ne: "x \<noteq> rt"
      then have nt: "Some x \<noteq> ?top" using t(3) by simp
      obtain l where l: "(l, x) \<in> ?P" using x(2) by auto
      from x(1) have h:
        "x \<in> ?M \<or> (\<exists>l. (l, x) \<in> ?P \<and> l \<le> lvl \<and> (\<not> ?rp \<or> Some x = ?top))"
        "\<not> (\<exists>l. (l, x) \<in> ?P \<and> l \<le> lvl \<and> x \<in> ?M \<and> ?rp \<and> Some x \<noteq> ?top)"
        "\<not> (\<exists>l. (l, x) \<in> ?P \<and> \<not> l \<le> lvl \<and> x \<in> ?M)"
        using held [of x] by blast+
      have m: "x \<in> ?M" using h(1) rp nt by blast
      show False
      proof (cases "l \<le> lvl")
        case True
        then show ?thesis using h(2) l m rp nt by blast
      next
        case False
        then show ?thesis using h(3) l m by blast
      qed
    qed
    have "{x \<in> ?R. x \<in> snd ` ?P} = {rt}"
    proof (rule set_eqI)
      fix x
      have "rt \<in> snd ` ?P" using t(1) by force
      then show "x \<in> {x \<in> ?R. x \<in> snd ` ?P} \<longleftrightarrow> x \<in> {rt}"
        using in_rt only [of x] by blast
    qed
    then show ?thesis using t(1,2,4) by blast
  qed
  have part_b: "\<forall>(l, r) \<in> ?P. l \<le> lvl \<longrightarrow> r \<in> ?R" if nrp: "\<not> ?rp"
  proof (clarify)
    fix l r assume lr: "(l, r) \<in> ?P" "l \<le> lvl"
    have c1: "\<exists>l. (l, r) \<in> ?P \<and> l \<le> lvl \<and> (\<not> ?rp \<or> Some r = ?top)"
      using lr nrp by (intro exI [of _ l]) simp
    have c2: "\<not> (\<exists>l. (l, r) \<in> ?P \<and> l \<le> lvl \<and> r \<in> ?M \<and> ?rp \<and> Some r \<noteq> ?top)"
      using nrp by simp
    have c3: "\<not> (\<exists>l. (l, r) \<in> ?P \<and> \<not> l \<le> lvl \<and> r \<in> ?M)"
    proof
      assume "\<exists>l. (l, r) \<in> ?P \<and> \<not> l \<le> lvl \<and> r \<in> ?M"
      then obtain l2 where l2: "(l2, r) \<in> ?P" "\<not> l2 \<le> lvl" by blast
      have "l2 = l" using same [OF l2(1) lr(1)] .
      then show False using l2(2) lr(2) by simp
    qed
    show "r \<in> ?R" using held [of r] c1 c2 c3 by blast
  qed
  have part_c: "\<forall>(l, r) \<in> ?P. lvl < l \<longrightarrow> r \<notin> ?R"
  proof (clarify)
    fix l r assume lr: "(l, r) \<in> ?P" "lvl < l" and r: "r \<in> ?R"
    from r have h:
      "r \<in> ?M \<or> (\<exists>l. (l, r) \<in> ?P \<and> l \<le> lvl \<and> (\<not> ?rp \<or> Some r = ?top))"
      "\<not> (\<exists>l. (l, r) \<in> ?P \<and> \<not> l \<le> lvl \<and> r \<in> ?M)"
      using held [of r] by blast+
    have nl: "\<not> l \<le> lvl" using lr(2) by simp
    have "r \<notin> ?M" using h(2) lr(1) nl by blast
    then obtain l2 where l2: "(l2, r) \<in> ?P" "l2 \<le> lvl" using h(1) by blast
    have "l2 = l" using same [OF l2(1) lr(1)] .
    then show False using l2(2) nl by simp
  qed
  show ?thesis using part_a part_b part_c by blast
qed

lemma demo_rewards_parsed: "configured_rewards demo_rewards_state = [(5, 11), (10, 12)]"
proof -
  have "parsed_rewards [(''5'', 11), (''10'', 12)] = [(5, 11), (10, 12)]" by code_simp
  then show ?thesis
    by (simp add: configured_rewards_def demo_rewards_state_def cfg_get_def)
qed

lemma demo_shared_parsed: "configured_rewards demo_shared_state = [(5, 11), (10, 11)]"
proof -
  have "parsed_rewards [(''5'', 11), (''10'', 11)] = [(5, 11), (10, 11)]" by code_simp
  then show ?thesis
    by (simp add: configured_rewards_def demo_shared_state_def cfg_get_def)
qed

theorem update_rewards_roles_held_witness:
  "db_ready demo_rewards_state \<and> add_fails demo_env = [] \<and> remove_fails demo_env = []
   \<and> configured_rewards demo_rewards_state = [(5, 11), (10, 12)]
   \<and> cfg_get (remove_previous_rewards (config demo_rewards_state)) True
   \<and> {x \<in> set (snd (update_rewards demo_rewards_state demo_env demo_member 7)). x \<in> {11, 12}} = {11}
   \<and> 12 \<notin> set (snd (update_rewards demo_rewards_state demo_env demo_member 7))"
proof -
  have r: "db_ready demo_rewards_state" by (simp add: demo_rewards_state_def demo_state_def)
  have ok: "add_fails demo_env = []" "remove_fails demo_env = []" by (simp_all add: demo_env_def)
  have ex: "\<forall>(l, r) \<in> set (configured_rewards demo_rewards_state). r \<in> set (guild_roles demo_env)"
    by (simp add: demo_rewards_parsed demo_env_def)
  have inj: "distinct (map snd (configured_rewards demo_rewards_state))"
    by (simp add: demo_rewards_parsed)
  have nn: "\<forall>(l, r) \<in> set (configured_rewards demo_rewards_state). 0 \<le> l"
    by (simp add: demo_rewards_parsed)
  have rp: "cfg_get (remove_previous_rewards (config demo_rewards_state)) True"
    by (simp add: demo_rewards_state_def demo_config_def cfg_get_def)
  show ?thesis
    using update_rewards_roles_held [OF r ok ex inj nn, of 7 demo_member] r ok rp
    by (simp add: demo_rewards_parsed)
qed

text \<open>
  Claim C3. After two \<open>xp-level-rewards set\<close> commands that give levels 5 and 10 the same
  role 11, a member at level 7 who holds role 11 loses it: the entry for level 10 is not
  applicable, so the loop over the non-applicable entries queues the role for removal. The
  member ends with no reward role although the threshold 5 is reached, every role exists and
  every API call succeeds.
\<close>

theorem update_rewards_shared_role:
  "config (out_state (run_command
       (out_state (run_command demo_state demo_interaction (LevelRewardSet 5 11)))
       demo_interaction (LevelRewardSet 10 11))) = config demo_shared_state
   \<and> db_ready demo_shared_state \<and> add_fails demo_env = [] \<and> remove_fails demo_env = []
   \<and> configured_rewards demo_shared_state = [(5, 11), (10, 11)]
   \<and> 11 \<in> set (guild_roles demo_env)
   \<and> cfg_get (remove_previous_rewards (config demo_shared_state)) True
   \<and> m_roles demo_holder = [11]
   \<and> snd (update_rewards demo_shared_state demo_env demo_holder 7) = []"
proof -
  have k: "py_str 5 = ''5''" "py_str 10 = ''10''" by code_simp+
  have c: "config (out_state (run_command
       (out_state (run_command demo_state demo_interaction (LevelRewardSet 5 11)))
       demo_interaction (LevelRewardSet 10 11))) = config demo_shared_state"
    by (simp add: set_level_reward_def guarded_def is_admin_def demo_interaction_def demo_admin_def
          set_cfg_def k)
       (simp add: demo_state_def demo_shared_state_def demo_config_def cfg_get_def)
  have p: "parsed_rewards [(''5'', 11), (''10'', 11)] = [(5, 11), (10, 11)]" by code_simp
  have u: "snd (update_rewards demo_shared_state demo_env demo_holder 7) = []"
    by (simp add: update_rewards_def demo_shared_state_def demo_state_def demo_config_def
        cfg_get_def applicable_roles_def non_applicable_roles_def p topmost_role_def
        demo_env_def demo_holder_def safe_remove_role_def Let_def)
  show ?thesis
    using c u
    by (simp add: demo_shared_parsed)
       (simp add: demo_shared_state_def demo_state_def demo_config_def cfg_get_def demo_env_def
          demo_holder_def)
qed

lemma rhe_lt: "q < of_int K - 1 / 2 \<Longrightarrow> round_half_even q < K"
proof -
  assume a: "q < of_int K - 1 / 2"
  then have "q < of_int K" by linarith
  then have fk: "\<lfloor>q\<rfloor> < K" by (simp add: floor_less_iff)
  show ?thesis
  proof (cases "\<lfloor>q\<rfloor> = K - 1")
    case True
    then have "of_int \<lfloor>q\<rfloor> = (of_int K :: rat) - 1" by simp
    then have "q - of_int \<lfloor>q\<rfloor> < 1 / 2" using a by linarith
    then show ?thesis using True by (simp add: round_half_even_def Let_def)
  next
    case False
    then have "\<lfloor>q\<rfloor> + 1 < K" using fk by simp
    then show ?thesis using rhe_floor [of q] by linarith
  qed
qed

lemma fl_round_nonpos: "x \<le> 0 \<Longrightarrow> fl_round x \<le> 0"
proof -
  assume x: "x \<le> 0"
  show ?thesis
  proof (cases "x = 0")
    case True
    then show ?thesis by (simp add: fl_round_def)
  next
    case False
    define e where "e = max (ilog2 \<bar>x\<bar> - 52) (- 1074)"
    have "0 \<le> \<bar>x\<bar> / pow2 e" by (simp add: less_imp_le)
    then have "(of_int 0 :: rat) \<le> \<bar>x\<bar> / pow2 e" by simp
    then have "0 \<le> round_half_even (\<bar>x\<bar> / pow2 e)" by (rule rhe_ge)
    then have "0 \<le> of_int (round_half_even (\<bar>x\<bar> / pow2 e)) * pow2 e"
      by (simp add: less_imp_le)
    moreover have "sgn x = - 1" using x False by simp
    ultimately show ?thesis using False by (simp add: fl_round_def e_def [symmetric] Let_def)
  qed
qed

lemma fl_round_neg:
  assumes "x < 0" "pow2 (- 20) \<le> - x"
  shows "fl_round x < 0"
proof -
  define e where "e = max (ilog2 \<bar>x\<bar> - 52) (- 1074)"
  have ax: "\<bar>x\<bar> = - x" "0 < \<bar>x\<bar>" using assms(1) by simp_all
  have "pow2 (ilog2 \<bar>x\<bar>) \<le> \<bar>x\<bar>" using ax(2) by (rule ilog2_bounds(1))
  moreover have "pow2 (ilog2 \<bar>x\<bar> - 52) \<le> pow2 (ilog2 \<bar>x\<bar>)" by (rule pow2_mono) simp
  ultimately have a: "pow2 (ilog2 \<bar>x\<bar> - 52) \<le> \<bar>x\<bar>" by linarith
  have "pow2 (- 1074) \<le> pow2 (- 20)" by (rule pow2_mono) simp
  then have b: "pow2 (- 1074) \<le> \<bar>x\<bar>" using assms(2) ax(1) by linarith
  have "pow2 e \<le> \<bar>x\<bar>" using a b by (simp add: e_def max_def)
  then have "(of_int 1 :: rat) \<le> \<bar>x\<bar> / pow2 e" by (simp add: pos_le_divide_eq)
  then have "1 \<le> round_half_even (\<bar>x\<bar> / pow2 e)" by (rule rhe_ge)
  then have "(0 :: rat) < of_int (round_half_even (\<bar>x\<bar> / pow2 e))" by simp
  then have "0 < of_int (round_half_even (\<bar>x\<bar> / pow2 e)) * pow2 e" by simp
  moreover have "sgn x = - 1" "x \<noteq> 0" using assms(1) by simp_all
  ultimately show ?thesis by (simp add: fl_round_def e_def [symmetric] Let_def)
qed

lemma seconds_below:
  assumes d: "1 \<le> d" and lt: "(of_int d :: rat) / 1000000 < of_int c" and c: "c \<le> 2 ^ 34"
  shows "0 \<le> fl_round (of_int d / 1000000) \<and> fl_round (of_int d / 1000000) < of_int c"
proof -
  define x :: rat where "x = of_int d / 1000000"
  have "(1 :: rat) \<le> of_int d" using d by simp
  then have "(1 :: rat) / 1000000 \<le> x" by (simp add: x_def)
  moreover have "pow2 (- 20) \<le> 1 / 1000000" by (simp add: pow2_def pow2_pos_eq)
  ultimately have lo: "pow2 (- 20) \<le> x" by linarith
  have "(of_int c :: rat) \<le> of_int (2 ^ 34)" using c by (simp only: of_int_le_iff)
  then have hi: "x < pow2 34" using lt by (simp add: x_def pow2_def pow2_pos_eq)
  have L: "- 20 \<le> ilog2 x" "ilog2 x < 34" using lo hi by (rule ilog2_range)+
  define n where "n = nat (52 - ilog2 x)"
  have n: "19 \<le> n" using L by (simp add: n_def)
  have e: "max (ilog2 x - 52) (- 1074) = ilog2 x - 52" using L by simp
  have p: "pow2 (ilog2 x - 52) = 1 / 2 ^ n" using L by (simp add: pow2_nonpos n_def)
  have xpos: "0 < x" using lo pow2_pos [of "- 20"] by linarith
  then have x0: "x \<noteq> 0" "\<bar>x\<bar> = x" "sgn x = 1" by simp_all
  have fl: "fl_round x = of_int (round_half_even (x * 2 ^ n)) / 2 ^ n"
    by (simp add: fl_round_def x0 e p Let_def)
  have "d < c * 1000000"
  proof -
    have "(of_int d :: rat) < of_int (c * 1000000)" using lt by (simp add: field_simps)
    then show ?thesis by (simp only: of_int_less_iff)
  qed
  then have "d + 1 \<le> c * 1000000" by simp
  then have "(of_int (d + 1) :: rat) \<le> of_int (c * 1000000)" by (simp only: of_int_le_iff)
  then have xle: "x \<le> of_int c - 1 / 1000000" by (simp add: x_def field_simps)
  have "(2 :: rat) ^ 19 \<le> 2 ^ n" using n by (intro power_increasing) auto
  then have big: "(1 :: rat) / 2 < 2 ^ n / 1000000" by simp
  have "x * 2 ^ n \<le> (of_int c - 1 / 1000000) * 2 ^ n"
    using xle by (intro mult_right_mono) auto
  also have "\<dots> = of_int (c * 2 ^ n) - 2 ^ n / 1000000" by (simp add: algebra_simps)
  also have "\<dots> < of_int (c * 2 ^ n) - 1 / 2" using big by linarith
  finally have "round_half_even (x * 2 ^ n) < c * 2 ^ n" by (rule rhe_lt)
  then have "(of_int (round_half_even (x * 2 ^ n)) :: rat) < of_int (c * 2 ^ n)"
    by (simp only: of_int_less_iff)
  then have up: "fl_round x < of_int c" by (simp add: fl pos_divide_less_eq)
  have "(of_int 0 :: rat) \<le> x * 2 ^ n" using xpos by simp
  then have "0 \<le> round_half_even (x * 2 ^ n)" by (rule rhe_ge)
  then have "0 \<le> fl_round x" by (simp add: fl)
  then show ?thesis using up by (simp add: x_def)
qed

lemma total_seconds_below:
  assumes lt: "(of_int d :: rat) / 1000000 < of_int c" and c: "0 \<le> c" "c \<le> 2 ^ 34"
  shows "(\<exists>e. total_seconds d = Inl e) \<or> (\<exists>r. total_seconds d = Inr r \<and> r < of_int c)"
proof -
  have "fl_round (of_int d / 1000000) < of_int c"
  proof (cases "1 \<le> d")
    case True
    then show ?thesis using seconds_below [OF True lt c(2)] by simp
  next
    case False
    then have d0: "d \<le> 0" by simp
    show ?thesis
    proof (cases "d = 0")
      case True
      then have "(0 :: rat) < of_int c" using lt by simp
      then show ?thesis using True by (simp add: fl_round_def)
    next
      case False
      then have dn: "d \<le> - 1" using d0 by simp
      then have "(of_int d :: rat) \<le> - 1" by (metis of_int_le_iff of_int_minus of_int_1)
      then have xl: "(of_int d :: rat) / 1000000 \<le> - (1 / 1000000)" by simp
      have "pow2 (- 20) \<le> 1 / 1000000" by (simp add: pow2_def pow2_pos_eq)
      then have "pow2 (- 20) \<le> - ((of_int d :: rat) / 1000000)" using xl by linarith
      moreover have "(of_int d :: rat) / 1000000 < 0" using xl by linarith
      ultimately have "fl_round (of_int d / 1000000) < 0" by (intro fl_round_neg) auto
      moreover have "(0 :: rat) \<le> of_int c" using c(1) by simp
      ultimately show ?thesis by linarith
    qed
  qed
  then show ?thesis
    by (simp add: total_seconds_def py_truediv_def Let_def)
qed

text \<open>
  A message posted in a blacklisted channel leaves the whole state unchanged. So does a
  message posted less than \<open>message_cooldown\<close> seconds after the author's last rewarded
  message while the configured cooldown lies between 0 and \<open>2^34\<close> seconds: up to that
  bound the rounded seconds stay below the cooldown.
\<close>

theorem on_message_blacklisted_or_cooldown:
  assumes "msg_channel msg \<in> set (cfg_get (blacklisted_channels (config st)) [])
           \<or> (\<exists>t. message_cooldowns st (m_id (msg_author msg)) = Some t
                  \<and> (of_int (now - t) :: rat) / 1000000
                      < of_int (cfg_get (message_cooldown (config st)) 0)
                  \<and> 0 \<le> cfg_get (message_cooldown (config st)) 0
                  \<and> cfg_get (message_cooldown (config st)) 0 \<le> 2 ^ 34)"
  shows "out_state (on_message st msg now) = st"
proof (cases "msg_channel msg \<in> set (cfg_get (blacklisted_channels (config st)) [])")
  case True
  then show ?thesis by (simp add: on_message_def)
next
  case False
  with assms obtain t where t: "message_cooldowns st (m_id (msg_author msg)) = Some t"
    and lt: "(of_int (now - t) :: rat) / 1000000 < of_int (cfg_get (message_cooldown (config st)) 0)"
    and c: "0 \<le> cfg_get (message_cooldown (config st)) 0"
           "cfg_get (message_cooldown (config st)) 0 \<le> 2 ^ 34"
    by blast
  from total_seconds_below [OF lt c]
  have "(\<exists>e. in_cooldown st (m_id (msg_author msg)) now = Inl e)
        \<or> in_cooldown st (m_id (msg_author msg)) now = Inr True"
    by (auto simp: in_cooldown_def t)
  then show ?thesis by (auto simp: on_message_def)
qed

theorem on_message_blacklisted_or_cooldown_witness:
  "msg_channel (demo_message\<lparr>msg_channel := 7\<rparr>)
     \<in> set (cfg_get (blacklisted_channels (config demo_state)) [])
   \<and> out_state (on_message demo_state (demo_message\<lparr>msg_channel := 7\<rparr>) 0) = demo_state
   \<and> message_cooldowns demo_cooldown_state (m_id (msg_author demo_message)) = Some 0
   \<and> (of_int (30000000 - 0) :: rat) / 1000000
       < of_int (cfg_get (message_cooldown (config demo_cooldown_state)) 0)
   \<and> cfg_get (message_cooldown (config demo_cooldown_state)) 0 = 60
   \<and> out_state (on_message demo_cooldown_state demo_message 30000000) = demo_cooldown_state"
proof -
  have a: "msg_channel (demo_message\<lparr>msg_channel := 7\<rparr>)
             \<in> set (cfg_get (blacklisted_channels (config demo_state)) [])"
    by (simp add: demo_message_def demo_state_def demo_config_def cfg_get_def)
  have b: "message_cooldowns demo_cooldown_state (m_id (msg_author demo_message)) = Some 0"
    by (simp add: demo_cooldown_state_def demo_message_def demo_member_def)
  have c: "cfg_get (message_cooldown (config demo_cooldown_state)) 0 = 60"
    by (simp add: demo_cooldown_state_def demo_state_def demo_config_def cfg_get_def)
  have d: "(of_int (30000000 - 0) :: rat) / 1000000
             < of_int (cfg_get (message_cooldown (config demo_cooldown_state)) 0)"
    by (simp add: c)
  have "out_state (on_message demo_state (demo_message\<lparr>msg_channel := 7\<rparr>) 0) = demo_state"
    using on_message_blacklisted_or_cooldown [of "demo_message\<lparr>msg_channel := 7\<rparr>" demo_state 0] a
    by blast
  moreover have "out_state (on_message demo_cooldown_state demo_message 30000000) = demo_cooldown_state"
    using on_message_blacklisted_or_cooldown [of demo_message demo_cooldown_state 30000000] b c d
    by simp
  ultimately show ?thesis using a b c d by blast
qed


end
